theory Spec2Isabelle
  imports Complex_Main
begin

section \<open>Python strings\<close>

text \<open>
  A Python \<open>str\<close> is a sequence of code points. The model is \<open>string\<close>, a list of
  8-bit characters, each read as the code point of the same number: the model covers the
  strings over U+0000..U+00FF (ASCII and Latin-1, which holds the letters \<open>\<ae>\<close>,
  \<open>\<oslash>\<close>, \<open>\<aa>\<close> that the source names: 0xE6, 0xF8, 0xE5).
\<close>

definition cp :: "char \<Rightarrow> nat" where
  "cp c = of_char c"

text \<open>\<open>str.isspace\<close>, also the class \<open>\s\<close> of \<open>re\<close> on a \<open>str\<close> pattern.\<close>

definition py_isspace :: "char \<Rightarrow> bool" where
  "py_isspace c = ((9 \<le> cp c \<and> cp c \<le> 13) \<or> (28 \<le> cp c \<and> cp c \<le> 32) \<or> cp c = 133 \<or> cp c = 160)"

definition py_strip :: "string \<Rightarrow> string" where
  "py_strip s = rev (dropWhile py_isspace (rev (dropWhile py_isspace s)))"

text \<open>
  \<open>str.lower\<close> on Latin-1: A-Z and the capitals U+00C0..U+00DE (the multiplication sign
  U+00D7 apart) move up by 32; every other code point stays.
\<close>

definition py_lower_char :: "char \<Rightarrow> char" where
  "py_lower_char c =
     (if (65 \<le> cp c \<and> cp c \<le> 90) \<or> (192 \<le> cp c \<and> cp c \<le> 222 \<and> cp c \<noteq> 215)
      then char_of (cp c + 32) else c)"

definition py_lower :: "string \<Rightarrow> string" where
  "py_lower s = map py_lower_char s"

text \<open>The operator \<open>needle in haystack\<close> on strings: a contiguous occurrence.\<close>

fun py_in :: "string \<Rightarrow> string \<Rightarrow> bool" where
  "py_in q [] = (q = [])"
| "py_in q (c # cs) = (take (length q) (c # cs) = q \<or> py_in q cs)"

text \<open>Truthiness of an optional string: \<open>None\<close> and the empty string are false.\<close>

definition truthy :: "string option \<Rightarrow> bool" where
  "truthy v = (case v of None \<Rightarrow> False | Some s \<Rightarrow> s \<noteq> [])"

section \<open>Year windows of the graph assembler (app/main.py)\<close>

text \<open>
  Python's \<open>int | None\<close> is \<open>int option\<close>. \<open>in_year_window\<close> takes the anchor
  year, the two filter bounds and the interval bounds as keyword arguments; the model
  takes them in the order of the signature.
\<close>

definition in_year_window ::
  "int option \<Rightarrow> int option \<Rightarrow> int option \<Rightarrow> int option \<Rightarrow> int option \<Rightarrow> bool" where
  "in_year_window year year_from year_to start_year end_year =
     (case year of
        Some y \<Rightarrow>
          (if (case year_from of Some f \<Rightarrow> y < f | None \<Rightarrow> False) then False
           else if (case year_to of Some t \<Rightarrow> y > t | None \<Rightarrow> False) then False
           else True)
      | None \<Rightarrow>
          (let effective_start = (case start_year of Some s \<Rightarrow> s | None \<Rightarrow> 0);
               effective_end = (case end_year of Some e \<Rightarrow> e | None \<Rightarrow> 9999)
           in if (case year_from of Some f \<Rightarrow> effective_end < f | None \<Rightarrow> False) then False
              else if (case year_to of Some t \<Rightarrow> effective_start > t | None \<Rightarrow> False) then False
              else True))"

text \<open>
  The words of the specification: a lower bound that is absent is unbounded, and so is an
  upper bound; an interval overlaps the filter window when it starts no later than the
  window ends and ends no earlier than the window starts.
\<close>

definition lower_ok :: "int option \<Rightarrow> int \<Rightarrow> bool" where
  "lower_ok year_from y = (case year_from of None \<Rightarrow> True | Some f \<Rightarrow> f \<le> y)"

definition upper_ok :: "int option \<Rightarrow> int \<Rightarrow> bool" where
  "upper_ok year_to y = (case year_to of None \<Rightarrow> True | Some t \<Rightarrow> y \<le> t)"

definition spec_overlaps :: "int \<Rightarrow> int \<Rightarrow> int option \<Rightarrow> int option \<Rightarrow> bool" where
  "spec_overlaps s e year_from year_to = (lower_ok year_from e \<and> upper_ok year_to s)"

subsection \<open>Text filter and the two row filters\<close>

definition matches_query :: "string option list \<Rightarrow> string option \<Rightarrow> bool" where
  "matches_query texts q =
     (if \<not> truthy q then True
      else let qn = py_strip (py_lower (the q))
           in if qn = [] then True
              else list_ex (\<lambda>text. truthy text \<and> py_in qn (py_lower (the text))) texts)"

record pydate =
  year :: int
  month :: nat
  day :: nat

text \<open>
  \<open>a or b\<close> on optional integers: \<open>a\<close> unless it is \<open>None\<close> or zero. (The year of a
  Python \<open>date\<close> is at least 1, so the zero case never fires on the years read below.)
\<close>

definition or_int :: "int option \<Rightarrow> int option \<Rightarrow> int option" where
  "or_int a b = (case a of Some y \<Rightarrow> (if y \<noteq> 0 then Some y else b) | None \<Rightarrow> b)"

record role_row =
  role_id :: nat
  role_title :: "string option"
  role_level :: "string option"
  norwegian_position_before :: "string option"
  announced_on :: "pydate option"
  start_on :: "pydate option"
  end_on :: "pydate option"
  person_id :: nat
  person_name :: string
  org_id :: nat
  org_name :: string
  anchor_year :: "int option"

definition role_year_bounds :: "'a role_row_scheme \<Rightarrow> int option \<times> int option \<times> int option" where
  "role_year_bounds row =
     (let start_year = map_option year (start_on row);
          end_year = map_option year (end_on row);
          announced_year = map_option year (announced_on row)
      in (start_year, end_year, or_int start_year announced_year))"

text \<open>
  \<open>filter_role_rows\<close>: the loop appends a copy of each row that passes both tests, with
  the key \<open>anchor_year\<close> set; the rows that fail are skipped.
\<close>

definition role_row_passes :: "string option \<Rightarrow> int option \<Rightarrow> int option \<Rightarrow> role_row \<Rightarrow> bool" where
  "role_row_passes q year_from year_to row =
     (case role_year_bounds row of (start_year, end_year, anchor) \<Rightarrow>
        in_year_window None year_from year_to anchor end_year
        \<and> matches_query [Some (person_name row), Some (org_name row), role_title row, role_level row] q)"

fun filter_role_rows :: "role_row list \<Rightarrow> string option \<Rightarrow> int option \<Rightarrow> int option \<Rightarrow> role_row list" where
  "filter_role_rows [] q year_from year_to = []"
| "filter_role_rows (row # rows) q year_from year_to =
     (if role_row_passes q year_from year_to row
      then row\<lparr>anchor_year := snd (snd (role_year_bounds row))\<rparr> # filter_role_rows rows q year_from year_to
      else filter_role_rows rows q year_from year_to)"

record funding_row =
  f_id :: nat
  f_funding_channel :: "string option"
  f_amount_nok :: "rat option"
  f_amount_original :: "rat option"
  f_currency_code :: "string option"
  f_fiscal_year :: "int option"
  f_period_start :: "pydate option"
  f_period_end :: "pydate option"
  f_notes :: "string option"
  f_recipient_name_raw :: "string option"
  f_org_id :: "nat option"
  f_org_name :: "string option"

definition funding_year_bounds :: "funding_row \<Rightarrow> int option \<times> int option \<times> int option" where
  "funding_year_bounds row =
     (map_option year (f_period_start row), map_option year (f_period_end row), f_fiscal_year row)"

definition funding_row_passes :: "string option \<Rightarrow> int option \<Rightarrow> int option \<Rightarrow> funding_row \<Rightarrow> bool" where
  "funding_row_passes q year_from year_to row =
     (case funding_year_bounds row of (period_start_year, period_end_year, fiscal_year) \<Rightarrow>
        in_year_window fiscal_year year_from year_to period_start_year period_end_year
        \<and> matches_query [f_org_name row, f_recipient_name_raw row, f_funding_channel row] q)"

fun filter_funding_rows :: "funding_row list \<Rightarrow> string option \<Rightarrow> int option \<Rightarrow> int option \<Rightarrow> funding_row list" where
  "filter_funding_rows [] q year_from year_to = []"
| "filter_funding_rows (row # rows) q year_from year_to =
     (if funding_row_passes q year_from year_to row
      then row # filter_funding_rows rows q year_from year_to
      else filter_funding_rows rows q year_from year_to)"


definition flow_fy :: "int option \<Rightarrow> int \<Rightarrow> int \<Rightarrow> funding_row" where
  "flow_fy fy ps pe =
     \<lparr>f_id = 1, f_funding_channel = Some ''IATI transaction'', f_amount_nok = Some 1000000,
      f_amount_original = None, f_currency_code = None, f_fiscal_year = fy,
      f_period_start = Some \<lparr>year = ps, month = 1, day = 1\<rparr>,
      f_period_end = Some \<lparr>year = pe, month = 12, day = 31\<rparr>,
      f_notes = None, f_recipient_name_raw = None, f_org_id = Some 1,
      f_org_name = Some ''UNICEF''\<rparr>"

section \<open>The IATI normalizer (scripts/normalize_iati_staging.py)\<close>

subsection \<open>Text helpers\<close>

text \<open>
  \<open>str.upper\<close> on Latin-1: a-z and the small letters U+00E0..U+00FE (the division sign
  U+00F7 apart) move down by 32, and the sharp s becomes \<open>SS\<close>. The capitals of U+00B5 and
  U+00FF lie beyond Latin-1; the model leaves these two code points as they are.
\<close>

definition py_upper_char :: "char \<Rightarrow> string" where
  "py_upper_char c =
     (if (97 \<le> cp c \<and> cp c \<le> 122) \<or> (224 \<le> cp c \<and> cp c \<le> 254 \<and> cp c \<noteq> 247)
      then [char_of (cp c - 32)]
      else if cp c = 223 then ''SS'' else [c])"

definition py_upper :: "string \<Rightarrow> string" where
  "py_upper s = concat (map py_upper_char s)"

definition clean_text :: "string option \<Rightarrow> string option" where
  "clean_text v =
     (case v of None \<Rightarrow> None
      | Some s \<Rightarrow> (let text = py_strip s in if text = [] then None else Some text))"

text \<open>\<open>a or b\<close> on optional strings, and \<open>str(v)\<close> as an f-string prints it.\<close>

definition or_str :: "string option \<Rightarrow> string option \<Rightarrow> string option" where
  "or_str a b = (if truthy a then a else b)"

definition py_str :: "string option \<Rightarrow> string" where
  "py_str v = (case v of None \<Rightarrow> ''None'' | Some s \<Rightarrow> s)"

fun py_join :: "string \<Rightarrow> string list \<Rightarrow> string" where
  "py_join sep [] = []"
| "py_join sep [x] = x"
| "py_join sep (x # y # ys) = x @ sep @ py_join sep (y # ys)"

text \<open>\<open>value.replace("&", " and ")\<close>.\<close>

definition replace_amp :: "string \<Rightarrow> string" where
  "replace_amp s = concat (map (\<lambda>c. if c = CHR ''&'' then '' and '' else [c]) s)"

text \<open>\<open>re.sub(r"\s+", " ", value)\<close>: every maximal run of whitespace becomes one space.\<close>

function collapse_ws :: "string \<Rightarrow> string" where
  "collapse_ws [] = []"
| "collapse_ws (c # cs) =
     (if py_isspace c then CHR '' '' # collapse_ws (dropWhile py_isspace cs)
      else c # collapse_ws cs)"
  by pat_completeness auto
termination
  by (relation "measure length") (auto simp: length_dropWhile_le less_Suc_eq_le)

definition is_az09 :: "char \<Rightarrow> bool" where
  "is_az09 c = ((97 \<le> cp c \<and> cp c \<le> 122) \<or> (48 \<le> cp c \<and> cp c \<le> 57))"

definition is_ae_oe_aa :: "char \<Rightarrow> bool" where
  "is_ae_oe_aa c = (cp c = 230 \<or> cp c = 248 \<or> cp c = 229)"

text \<open>The class \<open>[^a-z0-9\<ae>\<oslash>\<aa> ]\<close> of this script: what it does not match is kept.\<close>

definition keep_iati :: "char \<Rightarrow> bool" where
  "keep_iati c = (is_az09 c \<or> is_ae_oe_aa c \<or> c = CHR '' '')"

definition normalize_name_iati :: "string \<Rightarrow> string" where
  "normalize_name_iati v =
     (let v = py_lower v;
          v = replace_amp v;
          v = map (\<lambda>c. if keep_iati c then c else CHR '' '') v
      in py_strip (collapse_ws v))"

definition normalize_ref :: "string \<Rightarrow> string" where
  "normalize_ref v = filter (\<lambda>c. \<not> py_isspace c) (py_strip (py_upper v))"

definition is_ascii_letter :: "char \<Rightarrow> bool" where
  "is_ascii_letter c = ((65 \<le> cp c \<and> cp c \<le> 90) \<or> (97 \<le> cp c \<and> cp c \<le> 122))"

text \<open>\<open>re.match(r"^([A-Za-z]{2})-", ref.strip())\<close>, the group in capitals.\<close>

definition ref_to_country_code :: "string option \<Rightarrow> string option" where
  "ref_to_country_code ref =
     (if \<not> truthy ref then None
      else case py_strip (the ref) of
             a # b # d # _ \<Rightarrow>
               (if is_ascii_letter a \<and> is_ascii_letter b \<and> d = CHR ''-''
                then Some (py_upper [a, b]) else None)
           | _ \<Rightarrow> None)"

definition choose_fiscal_date :: "pydate option \<Rightarrow> pydate option \<Rightarrow> pydate option" where
  "choose_fiscal_date transaction_date value_date =
     (case transaction_date of Some d \<Rightarrow> Some d | None \<Rightarrow> value_date)"

subsection \<open>Confidence\<close>

text \<open>
  The source computes in binary floating point; the model computes the same expression
  on exact rationals. The two bounds of the clamp are the same constants in both.
\<close>

definition clamp_confidence :: "rat \<Rightarrow> rat" where
  "clamp_confidence v = max (50 / 100) (min (95 / 100) v)"

definition build_confidence :: "bool \<Rightarrow> bool \<Rightarrow> bool \<Rightarrow> bool \<Rightarrow> rat" where
  "build_confidence recipient_mapped donor_mapped has_date has_type =
     (let score = 68 / 100;
          score = (if recipient_mapped then score + 16 / 100 else score);
          score = (if donor_mapped then score + 8 / 100 else score);
          score = (if has_date then score + 4 / 100 else score);
          score = (if has_type then score + 3 / 100 else score)
      in clamp_confidence score)"

subsection \<open>Tables\<close>

text \<open>
  The tables the script reads and writes, as lists of rows in insertion order. A serial
  key is the next value of a counter. The schema itself is not among the sources: only
  the uniqueness that an \<open>ON CONFLICT\<close> clause names is modelled.
\<close>

record source_document =
  sd_id :: nat
  sd_source_name :: "string option"
  sd_url :: string
  sd_doc_type :: "string option"
  sd_notes :: "string option"

record organization_alias =
  oa_organization_id :: nat
  oa_alias :: string
  oa_source_system :: "string option"
  oa_source_document_id :: "nat option"

record funding_flow =
  flow_id :: nat
  donor_organization_id :: "nat option"
  donor_country_code :: "string option"
  recipient_organization_id :: "nat option"
  recipient_name_raw :: "string option"
  funding_channel :: "string option"
  amount_nok :: "rat option"
  amount_original :: "rat option"
  currency_code :: "string option"
  fiscal_year :: "int option"
  period_start :: "pydate option"
  period_end :: "pydate option"
  confidence :: "rat option"
  flow_notes :: "string option"

record database =
  source_document_tbl :: "source_document list"
  source_document_seq :: nat
  organization_alias_tbl :: "organization_alias list"
  funding_flow_tbl :: "funding_flow list"
  funding_flow_seq :: nat
  funding_flow_ingest_key :: "string \<times> string \<rightharpoonup> nat"
  funding_flow_source_document :: "(nat \<times> nat \<times> string) list"

record organization_lookup =
  by_name :: "string \<rightharpoonup> nat"
  by_ref :: "string \<rightharpoonup> nat"

record stg_row =
  stg_id :: nat
  package_name :: "string option"
  publisher_iati_id :: "string option"
  resource_url :: "string option"
  activity_iati_identifier :: "string option"
  transaction_type_code :: "string option"
  transaction_date :: "pydate option"
  value_date :: "pydate option"
  value_amount :: "rat option"
  value_currency :: "string option"
  receiver_org_ref :: "string option"
  receiver_org_name :: "string option"
  provider_org_ref :: "string option"
  provider_org_name :: "string option"
  reporting_org_ref :: "string option"
  reporting_org_name :: "string option"
  event_key :: string

definition map_organization ::
  "organization_lookup \<Rightarrow> string option \<Rightarrow> string option \<Rightarrow> nat option \<times> string" where
  "map_organization lookup org_ref org_nm =
     (case (case clean_text org_ref of Some ref \<Rightarrow> by_ref lookup (normalize_ref ref) | None \<Rightarrow> None) of
        Some org \<Rightarrow> (Some org, ''ref'')
      | None \<Rightarrow>
          (case (case clean_text org_nm of
                   Some name \<Rightarrow> by_name lookup (normalize_name_iati name) | None \<Rightarrow> None) of
             Some org \<Rightarrow> (Some org, ''name'')
           | None \<Rightarrow> (None, ''none'')))"

text \<open>
  \<open>COALESCE(a, b)\<close>; and the upsert on \<open>url\<close> that every \<open>ensure_source_document\<close> runs:
  on a conflict each column takes the new value unless that is null, and the key of the
  old row is returned. (PostgreSQL draws the serial value before it sees the conflict.)
\<close>

definition coalesce :: "'a option \<Rightarrow> 'a option \<Rightarrow> 'a option" where
  "coalesce a b = (case a of Some v \<Rightarrow> Some v | None \<Rightarrow> b)"

definition upsert_source_document ::
  "database \<Rightarrow> string option \<Rightarrow> string \<Rightarrow> string option \<Rightarrow> string option \<Rightarrow> nat \<times> database" where
  "upsert_source_document db source_name url doc_type doc_notes =
     (let new_id = source_document_seq db + 1
      in case find (\<lambda>r. sd_url r = url) (source_document_tbl db) of
           Some old \<Rightarrow>
             (sd_id old,
              db\<lparr>source_document_seq := new_id,
                 source_document_tbl :=
                   map (\<lambda>r. if sd_url r = url
                             then r\<lparr>sd_source_name := coalesce source_name (sd_source_name r),
                                    sd_doc_type := coalesce doc_type (sd_doc_type r),
                                    sd_notes := coalesce doc_notes (sd_notes r)\<rparr>
                             else r) (source_document_tbl db)\<rparr>)
         | None \<Rightarrow>
             (new_id,
              db\<lparr>source_document_seq := new_id,
                 source_document_tbl := source_document_tbl db @
                   [\<lparr>sd_id = new_id, sd_source_name = source_name, sd_url = url,
                     sd_doc_type = doc_type, sd_notes = doc_notes\<rparr>]\<rparr>))"

definition ensure_source_document_iati ::
  "database \<Rightarrow> string \<Rightarrow> string option \<Rightarrow> string option \<Rightarrow> nat \<times> database" where
  "ensure_source_document_iati db url package publisher =
     (let doc_notes = (if truthy package then [''package='' @ the package] else [])
                    @ (if truthy publisher then [''publisher_iati_id='' @ the publisher] else [])
      in upsert_source_document db (Some ''iati-registry'') url (Some ''iati_xml'')
           (if doc_notes = [] then None else Some (py_join ''; '' doc_notes)))"

text \<open>
  \<open>ensure_org_alias\<close> of this script: \<open>ON CONFLICT (organization_id, alias) DO NOTHING\<close>.
\<close>

definition insert_alias_row :: "database \<Rightarrow> organization_alias \<Rightarrow> database" where
  "insert_alias_row db new =
     (if list_ex (\<lambda>r. oa_organization_id r = oa_organization_id new \<and> oa_alias r = oa_alias new)
           (organization_alias_tbl db)
      then db
      else db\<lparr>organization_alias_tbl := organization_alias_tbl db @ [new]\<rparr>)"

definition ensure_org_alias_iati :: "database \<Rightarrow> nat \<Rightarrow> string option \<Rightarrow> nat option \<Rightarrow> database" where
  "ensure_org_alias_iati db organization_id alias source_document_id =
     (case clean_text alias of
        None \<Rightarrow> db
      | Some a \<Rightarrow>
          insert_alias_row db
            \<lparr>oa_organization_id = organization_id, oa_alias = a,
             oa_source_system = Some ''iati_ref'', oa_source_document_id = source_document_id\<rparr>)"

definition lookup_flow_by_ingest_key :: "database \<Rightarrow> string \<Rightarrow> string \<Rightarrow> nat option" where
  "lookup_flow_by_ingest_key db source_system key = funding_flow_ingest_key db (source_system, key)"

text \<open>A plain \<open>INSERT ... RETURNING id\<close>; the key of the given row is replaced.\<close>

definition insert_funding_flow :: "database \<Rightarrow> funding_flow \<Rightarrow> nat \<times> database" where
  "insert_funding_flow db vals =
     (let new_id = funding_flow_seq db + 1
      in (new_id,
          db\<lparr>funding_flow_seq := new_id,
             funding_flow_tbl := funding_flow_tbl db @ [vals\<lparr>flow_id := new_id\<rparr>]\<rparr>))"

definition ensure_funding_ingest_key :: "database \<Rightarrow> string \<Rightarrow> string \<Rightarrow> nat \<Rightarrow> database" where
  "ensure_funding_ingest_key db source_system key fid =
     db\<lparr>funding_flow_ingest_key := (funding_flow_ingest_key db)((source_system, key) \<mapsto> fid)\<rparr>"

definition ensure_funding_source_link :: "database \<Rightarrow> nat \<Rightarrow> nat \<Rightarrow> string \<Rightarrow> database" where
  "ensure_funding_source_link db fid source_document_id relation_type =
     (if (fid, source_document_id, relation_type) \<in> set (funding_flow_source_document db) then db
      else db\<lparr>funding_flow_source_document :=
                funding_flow_source_document db @ [(fid, source_document_id, relation_type)]\<rparr>)"

subsection \<open>The loop of \<open>main\<close>\<close>

text \<open>The connection, the cache of source documents and the six counters of the run.\<close>

record run_state =
  db :: database
  source_doc_by_url :: "string \<rightharpoonup> nat"
  processed :: nat
  inserted :: nat
  skipped_no_recipient :: nat
  skipped_existing :: nat
  donor_mapped_count :: nat
  recipient_mapped_count :: nat

text \<open>Lines 443 to 452: the source document of the row, through the cache.\<close>

definition source_document_for :: "run_state \<Rightarrow> stg_row \<Rightarrow> nat \<times> run_state" where
  "source_document_for st row =
     (let url = py_str (resource_url row)
      in case source_doc_by_url st url of
           Some sid \<Rightarrow> (sid, st)
         | None \<Rightarrow>
             (case ensure_source_document_iati (db st) url (package_name row) (publisher_iati_id row) of
                (sid, d) \<Rightarrow> (sid, st\<lparr>db := d, source_doc_by_url := (source_doc_by_url st)(url \<mapsto> sid)\<rparr>)))"

text \<open>
  Lines 498 to 548: the values of the row to insert, from the staged row, the two
  resolutions and the amount. The key is set by the insert.
\<close>

definition flow_values ::
  "stg_row \<Rightarrow> nat option \<Rightarrow> string \<Rightarrow> string option \<Rightarrow> nat option \<Rightarrow> string \<Rightarrow> string option \<Rightarrow> rat
   \<Rightarrow> funding_flow" where
  "flow_values row recipient_org recipient_match_mode name_raw donor_org donor_match_mode country amount =
     (let currency = map_option py_upper (clean_text (value_currency row));
          nok = (currency = Some ''NOK'' \<or> currency = None);
          fiscal_date = choose_fiscal_date (transaction_date row) (value_date row);
          tx_type = clean_text (transaction_type_code row)
      in \<lparr>flow_id = 0,
          donor_organization_id = donor_org,
          donor_country_code = country,
          recipient_organization_id = recipient_org,
          recipient_name_raw = name_raw,
          funding_channel =
            Some (case tx_type of Some t \<Rightarrow> ''IATI transaction type '' @ t | None \<Rightarrow> ''IATI transaction''),
          amount_nok = (if nok then Some amount else None),
          amount_original = (if nok then None else Some amount),
          currency_code = (if nok then None else currency),
          fiscal_year = map_option year fiscal_date,
          period_start = fiscal_date,
          period_end = fiscal_date,
          confidence =
            Some (build_confidence (recipient_org \<noteq> None) (donor_org \<noteq> None)
                    (fiscal_date \<noteq> None) (tx_type \<noteq> None)),
          flow_notes =
            Some (''IATI activity='' @ py_str (activity_iati_identifier row)
                  @ ''; match_recipient='' @ recipient_match_mode
                  @ ''; match_donor='' @ donor_match_mode
                  @ ''; event_key='' @ event_key row)\<rparr>)"

text \<open>Lines 443 to 561: the body of the loop once the ingest key was not found.\<close>

definition materialize_row :: "string \<Rightarrow> organization_lookup \<Rightarrow> stg_row \<Rightarrow> run_state \<Rightarrow> run_state" where
  "materialize_row source_system lookup row st0 =
     (case source_document_for st0 row of (source_document_id, st1) \<Rightarrow>
      case map_organization lookup (receiver_org_ref row) (receiver_org_name row) of
        (recipient_org, recipient_match_mode) \<Rightarrow>
      let name_raw = (if recipient_org = None then clean_text (receiver_org_name row) else None)
      in if recipient_org = None \<and> name_raw = None
         then st1\<lparr>skipped_no_recipient := skipped_no_recipient st1 + 1\<rparr>
         else
           let st2 = (case recipient_org of
                        None \<Rightarrow> st1
                      | Some rid \<Rightarrow>
                          st1\<lparr>recipient_mapped_count := recipient_mapped_count st1 + 1,
                              db := ensure_org_alias_iati (db st1) rid (receiver_org_ref row)
                                      (Some source_document_id)\<rparr>);
               donor_ref = or_str (provider_org_ref row) (reporting_org_ref row)
           in case map_organization lookup donor_ref
                     (or_str (provider_org_name row) (reporting_org_name row)) of
                (donor_org, donor_match_mode) \<Rightarrow>
              let st3 = (case donor_org of
                           None \<Rightarrow> st2
                         | Some did \<Rightarrow>
                             st2\<lparr>donor_mapped_count := donor_mapped_count st2 + 1,
                                 db := ensure_org_alias_iati (db st2) did donor_ref
                                         (Some source_document_id)\<rparr>);
                  country = ref_to_country_code donor_ref
              in case value_amount row of
                   None \<Rightarrow> st3
                 | Some amount \<Rightarrow>
                     (case insert_funding_flow (db st3)
                             (flow_values row recipient_org recipient_match_mode name_raw
                                donor_org donor_match_mode country amount) of
                        (fid, d) \<Rightarrow>
                          st3\<lparr>inserted := inserted st3 + 1,
                              db := ensure_funding_source_link
                                      (ensure_funding_ingest_key d source_system (event_key row) fid)
                                      fid source_document_id ''iati_xml''\<rparr>))"

text \<open>Lines 432 to 441 and the body above: one pass of the loop.\<close>

definition process_row :: "string \<Rightarrow> organization_lookup \<Rightarrow> stg_row \<Rightarrow> run_state \<Rightarrow> run_state" where
  "process_row source_system lookup row st0 =
     (let st = st0\<lparr>processed := processed st0 + 1\<rparr>
      in case lookup_flow_by_ingest_key (db st) source_system (event_key row) of
           Some existing_flow_id \<Rightarrow> st\<lparr>skipped_existing := skipped_existing st + 1\<rparr>
         | None \<Rightarrow> materialize_row source_system lookup row st)"

text \<open>The loop over the staged rows, with the optional cap \<open>--max-rows\<close>.\<close>

fun normalize_rows ::
  "int option \<Rightarrow> string \<Rightarrow> organization_lookup \<Rightarrow> stg_row list \<Rightarrow> run_state \<Rightarrow> run_state" where
  "normalize_rows max_rows source_system lookup [] st = st"
| "normalize_rows max_rows source_system lookup (row # rows) st =
     (if (case max_rows of Some m \<Rightarrow> int (processed st) \<ge> m | None \<Rightarrow> False) then st
      else normalize_rows max_rows source_system lookup rows (process_row source_system lookup row st))"

text \<open>
  What a staged row needs to become a funding row: an amount, and a recipient that the
  lookup resolves or a receiver name that is not blank.
\<close>

definition has_recipient :: "organization_lookup \<Rightarrow> stg_row \<Rightarrow> bool" where
  "has_recipient lookup row =
     (fst (map_organization lookup (receiver_org_ref row) (receiver_org_name row)) \<noteq> None
      \<or> clean_text (receiver_org_name row) \<noteq> None)"

definition materializable :: "organization_lookup \<Rightarrow> stg_row \<Rightarrow> bool" where
  "materializable lookup row = (has_recipient lookup row \<and> value_amount row \<noteq> None)"


text \<open>
  The values that the loop body computes for a row with the amount \<open>amount\<close>: the two
  resolutions depend on the lookup and the row only.
\<close>

definition resolved_flow :: "organization_lookup \<Rightarrow> stg_row \<Rightarrow> rat \<Rightarrow> funding_flow" where
  "resolved_flow lookup row amount =
     (case map_organization lookup (receiver_org_ref row) (receiver_org_name row) of
        (recipient_org, recipient_match_mode) \<Rightarrow>
      case map_organization lookup (or_str (provider_org_ref row) (reporting_org_ref row))
             (or_str (provider_org_name row) (reporting_org_name row)) of
        (donor_org, donor_match_mode) \<Rightarrow>
      flow_values row recipient_org recipient_match_mode
        (if recipient_org = None then clean_text (receiver_org_name row) else None)
        donor_org donor_match_mode
        (ref_to_country_code (or_str (provider_org_ref row) (reporting_org_ref row))) amount)"


subsection \<open>Example data\<close>

text \<open>
  The start of a run on an empty store, a lookup that knows UNICEF as organization 7, and
  the transaction of the end-to-end example of the specification: recipient UNICEF,
  1,000,000 NOK, dated 2020, event key E1; then the same without its amount and without
  its dates.
\<close>

definition empty_db :: database where
  "empty_db =
     \<lparr>source_document_tbl = [], source_document_seq = 0, organization_alias_tbl = [],
      funding_flow_tbl = [], funding_flow_seq = 0, funding_flow_ingest_key = Map.empty,
      funding_flow_source_document = []\<rparr>"






definition stored_flow :: "organization_lookup \<Rightarrow> stg_row \<Rightarrow> nat \<Rightarrow> rat \<Rightarrow> funding_flow" where
  "stored_flow lookup row new_id amount = (resolved_flow lookup row amount)\<lparr>flow_id := new_id\<rparr>"

text \<open>Settled rows: the key is there, or the row cannot become a funding row.\<close>

definition settled :: "string \<Rightarrow> organization_lookup \<Rightarrow> run_state \<Rightarrow> stg_row \<Rightarrow> bool" where
  "settled src lk st row =
     (lookup_flow_by_ingest_key (db st) src (event_key row) \<noteq> None \<or> \<not> materializable lk row)"



section \<open>Funding upserts and alias registration of the other scripts\<close>

subsection \<open>scripts/enrich_norad_oecd.py\<close>

text \<open>
  \<open>find_existing_funding_flow\<close>: the composite lookup. \<open>IS NOT DISTINCT FROM\<close> is equality
  that also holds between two nulls; \<open>=\<close> against a parameter holds for a non-null column
  only. \<open>LIMIT 1\<close> without an order returns some matching row: the model takes the first
  in table order.
\<close>

definition find_existing_funding_flow ::
  "database \<Rightarrow> nat \<Rightarrow> int option \<Rightarrow> string \<Rightarrow> rat option \<Rightarrow> rat option \<Rightarrow> string option \<Rightarrow> nat option" where
  "find_existing_funding_flow d recipient fy channel nok original currency =
     map_option flow_id
       (find (\<lambda>f. donor_country_code f = Some ''NO''
                 \<and> recipient_organization_id f = Some recipient
                 \<and> fiscal_year f = fy
                 \<and> funding_channel f = Some channel
                 \<and> amount_nok f = nok
                 \<and> amount_original f = original
                 \<and> currency_code f = currency) (funding_flow_tbl d))"

text \<open>\<open>UPDATE funding_flow SET notes = g(notes) WHERE id = i\<close>.\<close>

definition update_notes :: "database \<Rightarrow> nat \<Rightarrow> (string option \<Rightarrow> string option) \<Rightarrow> database" where
  "update_notes d i g =
     d\<lparr>funding_flow_tbl :=
         map (\<lambda>f. if flow_id f = i then f\<lparr>flow_notes := g (flow_notes f)\<rparr> else f) (funding_flow_tbl d)\<rparr>"

text \<open>
  \<open>upsert_funding_flow\<close>. The test \<open>if existing_id:\<close> is Python truthiness: a key that is
  \<open>None\<close> or zero takes the insert. The update is \<open>SET notes = COALESCE(%s, notes)\<close>: the
  new notes first.
\<close>

definition upsert_funding_flow ::
  "database \<Rightarrow> nat \<Rightarrow> int option \<Rightarrow> string \<Rightarrow> rat option \<Rightarrow> rat option \<Rightarrow> string option \<Rightarrow> string option
   \<Rightarrow> nat \<times> database" where
  "upsert_funding_flow d recipient fy channel nok original currency new_notes =
     (let existing_id = find_existing_funding_flow d recipient fy channel nok original currency
      in if existing_id \<noteq> None \<and> existing_id \<noteq> Some 0
         then (the existing_id, update_notes d (the existing_id) (\<lambda>old. coalesce new_notes old))
         else insert_funding_flow d
                \<lparr>flow_id = 0, donor_organization_id = None, donor_country_code = Some ''NO'',
                 recipient_organization_id = Some recipient, recipient_name_raw = None,
                 funding_channel = Some channel, amount_nok = nok, amount_original = original,
                 currency_code = currency, fiscal_year = fy, period_start = None, period_end = None,
                 confidence = Some (85 / 100), flow_notes = new_notes\<rparr>)"

subsection \<open>scripts/load_palestine_organizations.py\<close>

text \<open>
  The composite lookup of this script compares the fiscal year and the amount with \<open>=\<close>
  and wants the original amount and the currency null.
\<close>

definition find_existing_funding_flow_palestine ::
  "database \<Rightarrow> nat \<Rightarrow> int \<Rightarrow> string \<Rightarrow> rat \<Rightarrow> nat option" where
  "find_existing_funding_flow_palestine d recipient fy channel nok =
     map_option flow_id
       (find (\<lambda>f. donor_country_code f = Some ''NO''
                 \<and> recipient_organization_id f = Some recipient
                 \<and> fiscal_year f = Some fy
                 \<and> funding_channel f = Some channel
                 \<and> amount_nok f = Some nok
                 \<and> amount_original f = None
                 \<and> currency_code f = None) (funding_flow_tbl d))"

text \<open>\<open>upsert_historical_funding\<close>: the update is \<open>SET notes = COALESCE(notes, %s)\<close>, the old notes first.\<close>

definition upsert_historical_funding ::
  "database \<Rightarrow> nat \<Rightarrow> int \<Rightarrow> rat \<Rightarrow> string \<Rightarrow> string \<Rightarrow> nat \<times> database" where
  "upsert_historical_funding d recipient fy nok channel new_notes =
     (let existing_id = find_existing_funding_flow_palestine d recipient fy channel nok
      in if existing_id \<noteq> None \<and> existing_id \<noteq> Some 0
         then (the existing_id, update_notes d (the existing_id) (\<lambda>old. coalesce old (Some new_notes)))
         else insert_funding_flow d
                \<lparr>flow_id = 0, donor_organization_id = None, donor_country_code = Some ''NO'',
                 recipient_organization_id = Some recipient, recipient_name_raw = None,
                 funding_channel = Some channel, amount_nok = Some nok, amount_original = None,
                 currency_code = None, fiscal_year = Some fy, period_start = None, period_end = None,
                 confidence = Some (78 / 100), flow_notes = Some new_notes\<rparr>)"

text \<open>
  \<open>re.sub(r"\([^)]*\)", " ", value)\<close>: from an opening parenthesis to the first closing
  one after it, replaced by a space; an opening parenthesis with no closing one after it
  stays, and so does the rest of the string.
\<close>

function sub_parens :: "string \<Rightarrow> string" where
  "sub_parens [] = []"
| "sub_parens (c # cs) =
     (if c = CHR ''(''
      then (case dropWhile (\<lambda>d. d \<noteq> CHR '')'') cs of
              [] \<Rightarrow> c # cs
            | _ # rest \<Rightarrow> CHR '' '' # sub_parens rest)
      else c # sub_parens cs)"
  by pat_completeness auto
termination
proof (relation "measure length")
  fix c :: char and cs x21 x22
  assume "dropWhile (\<lambda>d. d \<noteq> CHR '')'') cs = x21 # x22"
  then have "length x22 < length (dropWhile (\<lambda>d. d \<noteq> CHR '')'') cs)"
    by simp
  also have "\<dots> \<le> length cs"
    by (rule length_dropWhile_le)
  finally show "(x22, c # cs) \<in> measure length"
    by simp
qed simp_all

text \<open>
  The class of this script is \<open>[^a-z0-9aeo\\s-]\<close> in a raw string: it names a to z, the
  digits, the backslash and the hyphen (\<open>s\<close> is a letter here, not the whitespace class).
\<close>

definition keep_palestine :: "char \<Rightarrow> bool" where
  "keep_palestine c = (is_az09 c \<or> c = CHR 0x5C \<or> c = CHR ''-'')"

definition normalize_name_palestine :: "string \<Rightarrow> string" where
  "normalize_name_palestine v =
     (let v = py_lower v;
          v = replace_amp v;
          v = sub_parens v;
          v = map (\<lambda>c. if keep_palestine c then c else CHR '' '') v
      in py_strip (collapse_ws v))"

text \<open>
  \<open>ensure_org_alias\<close> of this script: the same insert, then the in-memory lookup is set
  for the normalized alias.
\<close>

definition ensure_org_alias_palestine ::
  "database \<Rightarrow> (string \<rightharpoonup> nat) \<Rightarrow> nat \<Rightarrow> string option \<Rightarrow> string
   \<Rightarrow> bool \<times> database \<times> (string \<rightharpoonup> nat)" where
  "ensure_org_alias_palestine d lookup organization_id alias source_system =
     (case clean_text alias of
        None \<Rightarrow> (False, d, lookup)
      | Some alias_text \<Rightarrow>
          (let d' = insert_alias_row d
                      \<lparr>oa_organization_id = organization_id, oa_alias = alias_text,
                       oa_source_system = Some source_system, oa_source_document_id = None\<rparr>;
               key = normalize_name_palestine alias_text
           in (True, d', if key \<noteq> [] then lookup(key \<mapsto> organization_id) else lookup)))"

text \<open>The pairs of entity and alias that the alias table holds.\<close>

definition alias_pairs :: "database \<Rightarrow> (nat \<times> string) list" where
  "alias_pairs d = map (\<lambda>r. (oa_organization_id r, oa_alias r)) (organization_alias_tbl d)"

subsection \<open>Example data\<close>

text \<open>
  A store with one Norwegian funding row for organization 7, its notes set; and a store
  where the alias WHO belongs to organization 1.
\<close>

definition noted_flow :: funding_flow where
  "noted_flow =
     \<lparr>flow_id = 1, donor_organization_id = None, donor_country_code = Some ''NO'',
      recipient_organization_id = Some 7, recipient_name_raw = None,
      funding_channel = Some ''NORAD partner_sid=12'', amount_nok = Some 1000000,
      amount_original = None, currency_code = None, fiscal_year = Some 2020,
      period_start = None, period_end = None, confidence = Some (85 / 100),
      flow_notes = Some ''first note''\<rparr>"

definition noted_db :: database where
  "noted_db = empty_db\<lparr>funding_flow_tbl := [noted_flow], funding_flow_seq := 1\<rparr>"

definition who_db :: database where
  "who_db = empty_db\<lparr>organization_alias_tbl :=
       [\<lparr>oa_organization_id = 1, oa_alias = ''WHO'', oa_source_system = Some ''iati_ref'',
         oa_source_document_id = None\<rparr>]\<rparr>"

section \<open>Name normalizer and similarity (scripts/enrich_norad_oecd.py)\<close>

text \<open>The class \<open>[^a-z0-9\<ae>\<oslash>\<aa>\s-]\<close>: what it does not match is kept.\<close>

definition keep_enrich :: "char \<Rightarrow> bool" where
  "keep_enrich c = (is_az09 c \<or> is_ae_oe_aa c \<or> py_isspace c \<or> c = CHR ''-'')"

definition normalize_name :: "string \<Rightarrow> string" where
  "normalize_name text =
     (let text = py_lower text;
          text = replace_amp text;
          text = sub_parens text;
          text = map (\<lambda>c. if keep_enrich c then c else CHR '' '') text
      in py_strip (collapse_ws text))"

text \<open>
  The shape of a normalized name: letters and digits of a set \<open>K\<close> and single spaces,
  with no whitespace at either end.
\<close>

fun single_spaced :: "string \<Rightarrow> bool" where
  "single_spaced [] = True"
| "single_spaced [c] = (if py_isspace c then c = CHR '' '' else True)"
| "single_spaced (c # d # cs) =
     ((if py_isspace c then c = CHR '' '' \<and> \<not> py_isspace d else True) \<and> single_spaced (d # cs))"

definition trimmed :: "string \<Rightarrow> bool" where
  "trimmed s = (if s = [] then True else \<not> py_isspace (hd s) \<and> \<not> py_isspace (last s))"

definition normal_form :: "(char \<Rightarrow> bool) \<Rightarrow> string \<Rightarrow> bool" where
  "normal_form K s = (list_all (\<lambda>c. K c \<or> c = CHR '' '') s \<and> single_spaced s \<and> trimmed s)"

definition name_char :: "char \<Rightarrow> bool" where
  "name_char c = (is_az09 c \<or> is_ae_oe_aa c \<or> c = CHR ''-'')"

definition name_char_iati :: "char \<Rightarrow> bool" where
  "name_char_iati c = (is_az09 c \<or> is_ae_oe_aa c)"

definition name_char_palestine :: "char \<Rightarrow> bool" where
  "name_char_palestine c = (is_az09 c \<or> c = CHR 0x5C \<or> c = CHR ''-'')"

subsection \<open>\<open>difflib.SequenceMatcher(None, a, b).ratio()\<close>\<close>

text \<open>
  The call of \<open>similarity\<close> into Python's standard library, modelled from the library's
  source (\<open>Lib/difflib.py\<close>) with \<open>isjunk = None\<close> and \<open>autojunk = True\<close>, the defaults that
  the call uses. With no junk function the set \<open>bjunk\<close> is empty, so the two loops that
  extend a match over junk never run and are left out. An element of \<open>b\<close> is popular when
  \<open>b\<close> has 200 elements or more and the element occurs more than \<open>len(b) // 100 + 1\<close>
  times; popular elements are removed from the index \<open>b2j\<close>.
\<close>

definition popular :: "string \<Rightarrow> char \<Rightarrow> bool" where
  "popular b x = (200 \<le> length b \<and> length b div 100 + 1 < count_list b x)"

definition b2j :: "string \<Rightarrow> char \<Rightarrow> nat list" where
  "b2j b x = (if popular b x then [] else filter (\<lambda>j. b ! j = x) [0..<length b])"

type_synonym match = "nat \<times> nat \<times> nat"

text \<open>
  The body of the inner loop of \<open>find_longest_match\<close>. The dictionary \<open>j2len\<close> holds
  positive lengths, so a total function with 0 for an absent key stands for it;
  \<open>j2len.get(j-1, 0)\<close> at \<open>j = 0\<close> asks for the key -1, which is never there. The start
  \<open>i-k+1\<close> is written \<open>i + 1 - k\<close>: \<open>k\<close> never exceeds \<open>i + 1\<close>.
\<close>

definition inner_step :: "nat \<Rightarrow> (nat \<Rightarrow> nat) \<Rightarrow> nat \<Rightarrow> (nat \<Rightarrow> nat) \<times> match \<Rightarrow> (nat \<Rightarrow> nat) \<times> match" where
  "inner_step i j2len j s =
     (case s of (newj2len, (besti, bestj, bestsize)) \<Rightarrow>
        let k = (if j = 0 then 0 else j2len (j - 1)) + 1
        in (newj2len(j := k),
            if bestsize < k then (i + 1 - k, j + 1 - k, k) else (besti, bestj, bestsize)))"

text \<open>
  One pass of the outer loop: the indices of \<open>a[i]\<close> in \<open>b\<close>, ascending; those below \<open>blo\<close>
  are skipped and the loop breaks at the first that reaches \<open>bhi\<close>.
\<close>

definition row_step :: "string \<Rightarrow> string \<Rightarrow> nat \<Rightarrow> nat \<Rightarrow> nat \<Rightarrow> (nat \<Rightarrow> nat) \<times> match \<Rightarrow> (nat \<Rightarrow> nat) \<times> match" where
  "row_step a b blo bhi i s =
     (case s of (j2len, best) \<Rightarrow>
        fold (inner_step i j2len) (filter (\<lambda>j. blo \<le> j \<and> j < bhi) (b2j b (a ! i))) (\<lambda>_. 0, best))"

function extend_back :: "string \<Rightarrow> string \<Rightarrow> nat \<Rightarrow> nat \<Rightarrow> match \<Rightarrow> match" where
  "extend_back a b alo blo (besti, bestj, bestsize) =
     (if alo < besti \<and> blo < bestj \<and> a ! (besti - 1) = b ! (bestj - 1)
      then extend_back a b alo blo (besti - 1, bestj - 1, bestsize + 1)
      else (besti, bestj, bestsize))"
  by pat_completeness auto
termination
  by (relation "measure (\<lambda>(a, b, alo, blo, besti, bestj, bestsize). besti)") auto

declare extend_back.simps [simp del]

function extend_forward :: "string \<Rightarrow> string \<Rightarrow> nat \<Rightarrow> nat \<Rightarrow> match \<Rightarrow> match" where
  "extend_forward a b ahi bhi (besti, bestj, bestsize) =
     (if besti + bestsize < ahi \<and> bestj + bestsize < bhi
         \<and> a ! (besti + bestsize) = b ! (bestj + bestsize)
      then extend_forward a b ahi bhi (besti, bestj, bestsize + 1)
      else (besti, bestj, bestsize))"
  by pat_completeness auto
termination
  by (relation "measure (\<lambda>(a, b, ahi, bhi, besti, bestj, bestsize). ahi - (besti + bestsize))") auto

declare extend_forward.simps [simp del]

definition longest_run :: "string \<Rightarrow> string \<Rightarrow> nat \<Rightarrow> nat \<Rightarrow> nat \<Rightarrow> nat \<Rightarrow> (nat \<Rightarrow> nat) \<times> match" where
  "longest_run a b alo ahi blo bhi =
     fold (row_step a b blo bhi) [alo..<ahi] (\<lambda>_. 0, (alo, blo, 0))"

definition find_longest_match :: "string \<Rightarrow> string \<Rightarrow> nat \<Rightarrow> nat \<Rightarrow> nat \<Rightarrow> nat \<Rightarrow> match" where
  "find_longest_match a b alo ahi blo bhi =
     extend_forward a b ahi bhi (extend_back a b alo blo (snd (longest_run a b alo ahi blo bhi)))"

text \<open>
  For the termination of the loop of \<open>get_matching_blocks\<close>: the match that
  \<open>find_longest_match\<close> returns lies within the rows \<open>alo..ahi\<close> it was asked for.
\<close>

definition run_bound :: "nat \<Rightarrow> nat \<Rightarrow> (nat \<Rightarrow> nat) \<times> match \<Rightarrow> bool" where
  "run_bound alo r s =
     (case s of (j2len, (besti, bestj, bestsize)) \<Rightarrow>
        (\<forall>j. j2len j \<le> r) \<and> alo \<le> besti
        \<and> (if bestsize = 0 then besti = alo else besti + bestsize \<le> alo + r))"

lemma inner_fold_bound:
  assumes "\<forall>j. j2len j \<le> r" and "run_bound alo (Suc r) (new, best)"
  shows "run_bound alo (Suc r) (fold (inner_step (alo + r) j2len) js (new, best))"
  using assms(2)
proof (induction js arbitrary: new best)
  case Nil
  then show ?case by simp
next
  case (Cons j js)
  obtain bi bj bs where best: "best = (bi, bj, bs)" by (cases best)
  define k where "k = (if j = 0 then 0 else j2len (j - 1)) + 1"
  have k: "0 < k" "k \<le> Suc r"
    using assms(1) by (auto simp: k_def)
  have step: "inner_step (alo + r) j2len j (new, best) =
      (new(j := k), if bs < k then (alo + r + 1 - k, j + 1 - k, k) else (bi, bj, bs))"
    by (simp add: inner_step_def best k_def Let_def)
  have "run_bound alo (Suc r) (new(j := k), if bs < k then (alo + r + 1 - k, j + 1 - k, k) else (bi, bj, bs))"
    using Cons.prems k by (auto simp: run_bound_def best)
  then show ?case
    using Cons.IH by (simp add: step split: if_splits)
qed

lemma row_step_bound:
  assumes "run_bound alo r s"
  shows "run_bound alo (Suc r) (row_step a b blo bhi (alo + r) s)"
proof -
  obtain j2len best where s: "s = (j2len, best)" by (cases s)
  from assms have j: "\<forall>j. j2len j \<le> r"
    by (auto simp: run_bound_def s)
  from assms have "run_bound alo (Suc r) (\<lambda>_. 0, best)"
    by (auto simp: run_bound_def s split: if_splits)
  with j show ?thesis
    by (simp add: row_step_def s inner_fold_bound)
qed

lemma longest_run_bound_aux:
  "run_bound alo r (fold (row_step a b blo bhi) [alo..<alo + r] (\<lambda>_. 0, (alo, blo, 0)))"
proof (induction r)
  case 0
  then show ?case by (simp add: run_bound_def)
next
  case (Suc r)
  then show ?case by (simp add: row_step_bound)
qed

lemma longest_run_bound: "run_bound alo (ahi - alo) (longest_run a b alo ahi blo bhi)"
proof (cases "alo \<le> ahi")
  case True
  then have "[alo..<ahi] = [alo..<alo + (ahi - alo)]" by simp
  then show ?thesis
    unfolding longest_run_def using longest_run_bound_aux [of alo "ahi - alo"] by simp
next
  case False
  then show ?thesis by (simp add: longest_run_def run_bound_def)
qed


definition in_rows :: "nat \<Rightarrow> nat \<Rightarrow> match \<Rightarrow> bool" where
  "in_rows alo ahi m =
     (case m of (besti, bestj, bestsize) \<Rightarrow>
        alo \<le> besti \<and> (if bestsize = 0 then besti = alo else besti + bestsize \<le> ahi))"

lemma extend_back_rows:
  "in_rows alo ahi m \<Longrightarrow> in_rows alo ahi (extend_back a b alo blo m)"
proof (induction a b alo blo m rule: extend_back.induct)
  case (1 a b alo blo besti bestj bestsize)
  show ?case
  proof (cases "alo < besti \<and> blo < bestj \<and> a ! (besti - 1) = b ! (bestj - 1)")
    case True
    with "1.prems" have "in_rows alo ahi (besti - 1, bestj - 1, bestsize + 1)"
      by (auto simp: in_rows_def split: if_splits)
    with True "1.IH" show ?thesis
      by (subst extend_back.simps) simp
  next
    case False
    have "extend_back a b alo blo (besti, bestj, bestsize) = (besti, bestj, bestsize)"
      by (subst extend_back.simps) (simp only: False if_False)
    with "1.prems" show ?thesis by simp
  qed
qed

definition in_rows_weak :: "nat \<Rightarrow> nat \<Rightarrow> match \<Rightarrow> bool" where
  "in_rows_weak alo ahi m =
     (case m of (besti, bestj, bestsize) \<Rightarrow>
        alo \<le> besti \<and> (bestsize = 0 \<or> besti + bestsize \<le> ahi))"

lemma extend_forward_rows:
  "in_rows_weak alo ahi m \<Longrightarrow> in_rows_weak alo ahi (extend_forward a b ahi bhi m)"
proof (induction a b ahi bhi m rule: extend_forward.induct)
  case (1 a b ahi bhi besti bestj bestsize)
  show ?case
  proof (cases "besti + bestsize < ahi \<and> bestj + bestsize < bhi
         \<and> a ! (besti + bestsize) = b ! (bestj + bestsize)")
    case True
    with "1.prems" have "in_rows_weak alo ahi (besti, bestj, bestsize + 1)"
      by (auto simp: in_rows_weak_def)
    with True "1.IH" show ?thesis
      by (subst extend_forward.simps) simp
  next
    case False
    have "extend_forward a b ahi bhi (besti, bestj, bestsize) = (besti, bestj, bestsize)"
      by (subst extend_forward.simps) (simp only: False if_False)
    with "1.prems" show ?thesis by simp
  qed
qed

lemma find_longest_match_rows:
  assumes "find_longest_match a b alo ahi blo bhi = (i, j, k)"
  shows "alo \<le> i \<and> (k = 0 \<or> i + k \<le> ahi)"
proof -
  obtain j2len best where l: "longest_run a b alo ahi blo bhi = (j2len, best)"
    by (cases "longest_run a b alo ahi blo bhi")
  have "run_bound alo (ahi - alo) (j2len, best)"
    using longest_run_bound [of alo ahi a b blo bhi] by (simp add: l)
  then have "in_rows alo ahi best"
    by (cases best) (auto simp: run_bound_def in_rows_def split: if_splits)
  then have "in_rows alo ahi (extend_back a b alo blo best)"
    by (rule extend_back_rows)
  then have "in_rows_weak alo ahi (extend_back a b alo blo best)"
    by (cases "extend_back a b alo blo best") (auto simp: in_rows_def in_rows_weak_def split: if_splits)
  then have "in_rows_weak alo ahi (extend_forward a b ahi bhi (extend_back a b alo blo best))"
    by (rule extend_forward_rows)
  then show ?thesis
    using assms by (simp add: find_longest_match_def l in_rows_weak_def)
qed

text \<open>
  The loop of \<open>get_matching_blocks\<close>: the queue is a stack of boxes
  \<open>(alo, ahi, blo, bhi)\<close>, its top at the head of the list; a box with a match of length \<open>k > 0\<close>
  yields the match and pushes the part to the left of it, then the part to the right.
  (\<open>ratio\<close> only adds up the lengths, so the sort and the merge of adjacent blocks that
  follow the loop are not modelled.)
\<close>

function matching_blocks :: "string \<Rightarrow> string \<Rightarrow> (nat \<times> nat \<times> nat \<times> nat) list \<Rightarrow> match list" where
  "matching_blocks a b [] = []"
| "matching_blocks a b ((alo, ahi, blo, bhi) # queue) =
     (case find_longest_match a b alo ahi blo bhi of
        (i, j, k) \<Rightarrow>
          if k \<noteq> 0
          then (i, j, k) #
               matching_blocks a b
                 ((if i + k < ahi \<and> j + k < bhi then [(i + k, ahi, j + k, bhi)] else [])
                  @ (if alo < i \<and> blo < j then [(alo, i, blo, j)] else [])
                  @ queue)
          else matching_blocks a b queue)"
  by pat_completeness auto
termination
  apply (relation "measure (\<lambda>(a, b, queue). sum_list (map (\<lambda>(alo, ahi, blo, bhi). 2 * (ahi - alo) + 1) queue))")
   apply simp_all
  subgoal premises p for a b alo ahi blo bhi i y j k
  proof -
    from p have "find_longest_match a b alo ahi blo bhi = (i, j, k)"
      by simp
    then have "alo \<le> i \<and> (k = 0 \<or> i + k \<le> ahi)"
      by (rule find_longest_match_rows)
    with p(3) have "alo \<le> i" and "i + k \<le> ahi" and "0 < k"
      by simp_all
    then show ?thesis
      by auto
  qed
  done

declare matching_blocks.simps [simp del]

definition ratio :: "string \<Rightarrow> string \<Rightarrow> rat" where
  "ratio a b =
     (let matches = sum_list (map (\<lambda>(i, j, k). k) (matching_blocks a b [(0, length a, 0, length b)]));
          len = length a + length b
      in if len \<noteq> 0 then 2 * of_nat matches / of_nat len else 1)"

subsection \<open>Tokens and the score\<close>

definition STOPWORDS :: "string list" where
  "STOPWORDS =
     [''the'', ''and'', ''for'', ''of'', ''in'', ''to'', ''international'', ''organization'',
      ''organisasjon'', ''centre'', ''center'', ''fund'', ''group'', ''global'', ''world'',
      ''united'', ''nations'']"

text \<open>
  \<open>str.split()\<close> cuts at whitespace and drops the empty pieces; \<open>str.isdigit()\<close> wants at
  least one character and only digits (on Latin-1: 0 to 9 and the superscripts 1, 2, 3).
\<close>

fun split_at_spaces :: "string \<Rightarrow> string list" where
  "split_at_spaces [] = [[]]"
| "split_at_spaces (c # cs) =
     (let r = split_at_spaces cs
      in if py_isspace c then [] # r else (c # hd r) # tl r)"

definition py_split :: "string \<Rightarrow> string list" where
  "py_split s = filter (\<lambda>w. w \<noteq> []) (split_at_spaces s)"

definition py_isdigit :: "string \<Rightarrow> bool" where
  "py_isdigit s =
     (s \<noteq> [] \<and> list_all (\<lambda>c. (48 \<le> cp c \<and> cp c \<le> 57) \<or> cp c = 178 \<or> cp c = 179 \<or> cp c = 185) s)"

definition token_set :: "string \<Rightarrow> string set" where
  "token_set text =
     set (filter (\<lambda>t. 3 \<le> length t \<and> t \<notin> set STOPWORDS \<and> \<not> py_isdigit t)
            (py_split (normalize_name text)))"

definition similarity :: "string \<Rightarrow> string \<Rightarrow> rat" where
  "similarity a b =
     (let a_norm = normalize_name a;
          b_norm = normalize_name b
      in if a_norm = [] \<or> b_norm = [] then 0
         else
           let seq = ratio a_norm b_norm;
               a_tokens = token_set a;
               b_tokens = token_set b;
               jaccard = (if a_tokens = {} \<or> b_tokens = {} then 0
                          else of_nat (card (a_tokens \<inter> b_tokens)) / of_nat (card (a_tokens \<union> b_tokens)));
               contains_boost = (if py_in a_norm b_norm \<or> py_in b_norm a_norm then 1 / 10 else 0);
               score = seq * (65 / 100) + jaccard * (35 / 100) + contains_boost
           in min score 1)"

text \<open>
  For the score of a name against itself: the number of elements that are not popular
  in \<open>a\<close>, in a row up to and with position \<open>i\<close>; and what the two loops of
  \<open>find_longest_match\<close> keep true when a string is matched against itself: the best
  match lies on the diagonal, within the rows seen, and is as long as any such row that
  the loop has passed.
\<close>

fun dg :: "string \<Rightarrow> nat \<Rightarrow> nat" where
  "dg a 0 = (if popular a (a ! 0) then 0 else 1)"
| "dg a (Suc i) = (if popular a (a ! Suc i) then 0 else dg a i + 1)"

definition prev_dg :: "string \<Rightarrow> nat \<Rightarrow> nat" where
  "prev_dg a i = (if i = 0 then 0 else dg a (i - 1))"

definition diag_inv :: "string \<Rightarrow> nat \<Rightarrow> bool \<Rightarrow> (nat \<Rightarrow> nat) \<times> match \<Rightarrow> bool" where
  "diag_inv a i seen s =
     (case s of (new, (besti, bestj, bestsize)) \<Rightarrow>
        besti = bestj
        \<and> (if bestsize = 0 then besti = 0 else besti + bestsize \<le> i + 1)
        \<and> (\<forall>i' < i. dg a i' \<le> bestsize)
        \<and> (if seen then dg a i \<le> bestsize \<and> new i = dg a i else True)
        \<and> (\<forall>j. new j \<le> dg a i \<and> new j \<le> dg a j))"

definition row_inv :: "string \<Rightarrow> nat \<Rightarrow> (nat \<Rightarrow> nat) \<times> match \<Rightarrow> bool" where
  "row_inv a i s =
     (case s of (j2len, (besti, bestj, bestsize)) \<Rightarrow>
        besti = bestj
        \<and> (if bestsize = 0 then besti = 0 else besti + bestsize \<le> i)
        \<and> (\<forall>i' < i. dg a i' \<le> bestsize)
        \<and> (\<forall>j. j2len j \<le> prev_dg a i \<and> j2len j \<le> dg a j)
        \<and> (if 0 < i then j2len (i - 1) = dg a (i - 1) else True))"

section \<open>Assembly of the person drilldown (app/main.py, \<open>person_drilldown\<close>)\<close>

text \<open>
  The three loops of \<open>person_drilldown\<close> that build the person nodes, the role edges of
  the dataset and the curated bindings (lines 1612 to 1853), over the rows that the
  queries returned. The loops that follow only append edges of the types
  \<open>person_link\<close> and \<open>shared_institution\<close>, drop unconnected nodes and sort the bindings.
  The \<open>label\<close> of an edge is \<open>short_label\<close> of its title and may end in the ellipsis
  U+2026, beyond Latin-1: the model leaves the label out.
\<close>

function str_nat :: "nat \<Rightarrow> string" where
  "str_nat n = (if n < 10 then [char_of (48 + n)] else str_nat (n div 10) @ [char_of (48 + n mod 10)])"
  by pat_completeness auto
termination
  by (relation "measure id") auto

declare str_nat.simps [simp del]

text \<open>\<open>external_recipient_key\<close>: the second substitution deletes what the class matches.\<close>

definition external_recipient_key :: "string \<Rightarrow> string" where
  "external_recipient_key name =
     (let key = collapse_ws (py_lower (py_strip name));
          key = filter keep_iati key
      in if key = [] then ''unknown'' else key)"

record source_ref =
  ref_source_name :: "string option"
  ref_url :: "string option"
  ref_doc_type :: "string option"
  ref_relation_type :: "string option"

record curated_item =
  ci_institution_name :: "string option"
  ci_institution_type :: "string option"
  ci_role_title :: "string option"
  ci_relation_type :: "string option"
  ci_start_year :: "int option"
  ci_end_year :: "int option"
  ci_outside_dataset :: "bool option"
  ci_notes :: "string option"
  ci_sources :: "source_ref list"

record profile =
  display_name :: "string option"
  curated_bindings :: "curated_item list"

record person_row =
  pr_id :: nat
  pr_canonical_name :: "string option"

record node =
  node_label :: string
  node_type :: string
  node_subtitle :: "string option"

record edge =
  e_id :: string
  e_from :: string
  e_to :: string
  e_type :: string
  e_source_kind :: string
  e_outside_dataset :: bool
  e_title :: string
  e_year :: "int option"
  e_person_name :: string
  e_role_title :: string
  e_role_level :: "string option"
  e_relation_type :: "string option"
  e_institution_type :: "string option"
  e_start_year :: "int option"
  e_end_year :: "int option"
  e_notes :: "string option"
  e_sources :: "source_ref list"

record binding =
  b_id :: string
  b_person_key :: string
  b_person_name :: string
  b_institution_node_id :: string
  b_institution_name :: string
  b_role_title :: string
  b_relation_type :: "string option"
  b_start_year :: "int option"
  b_end_year :: "int option"
  b_source_kind :: string
  b_outside_dataset :: bool
  b_notes :: "string option"
  b_sources :: "source_ref list"

type_synonym signature = "string \<times> string \<times> string \<times> int option \<times> int option"

text \<open>What the queries and the request give to the loops.\<close>

record drilldown_input =
  selected_key :: string
  profile_keys :: "string list"
  profiles :: "string \<Rightarrow> profile"
  profile_role_rows :: "string \<rightharpoonup> role_row list"
  profile_person_rows :: "string \<rightharpoonup> person_row"
  role_sources :: "nat \<rightharpoonup> source_ref list"
  q_text :: "string option"
  q_year_from :: "int option"
  q_year_to :: "int option"

text \<open>The dictionaries, lists and sets that the loops fill.\<close>

record assembly =
  nodes :: "string \<rightharpoonup> node"
  edges :: "edge list"
  bindings :: "binding list"
  org_name_to_node_id :: "string \<rightharpoonup> string"
  org_node_outside :: "string \<rightharpoonup> bool"
  org_node_names :: "string \<rightharpoonup> string"
  person_node_ids :: "string \<rightharpoonup> string"
  person_names :: "string \<rightharpoonup> string"
  person_db_ids :: "string \<rightharpoonup> nat"
  person_to_orgs :: "string \<Rightarrow> string set"
  dataset_binding_signatures :: "signature set"

definition empty_assembly :: assembly where
  "empty_assembly =
     \<lparr>nodes = Map.empty, edges = [], bindings = [], org_name_to_node_id = Map.empty,
      org_node_outside = Map.empty, org_node_names = Map.empty, person_node_ids = Map.empty,
      person_names = Map.empty, person_db_ids = Map.empty, person_to_orgs = (\<lambda>_. {}),
      dataset_binding_signatures = {}\<rparr>"

definition add_node :: "string \<Rightarrow> string \<Rightarrow> string \<Rightarrow> string option \<Rightarrow> assembly \<Rightarrow> assembly" where
  "add_node nid label ntype subtitle st =
     (case nodes st nid of
        Some existing \<Rightarrow>
          (if node_type existing \<noteq> ''person_focus'' \<and> ntype = ''person_focus''
           then st\<lparr>nodes := (nodes st)(nid \<mapsto> existing\<lparr>node_type := ntype, node_subtitle := subtitle\<rparr>)\<rparr>
           else st)
      | None \<Rightarrow>
          st\<lparr>nodes := (nodes st)(nid \<mapsto> \<lparr>node_label = label, node_type = ntype, node_subtitle = subtitle\<rparr>)\<rparr>)"

text \<open>\<open>v or default\<close> on an optional string.\<close>

definition or_default :: "string option \<Rightarrow> string \<Rightarrow> string" where
  "or_default v d = (if truthy v then the v else d)"

text \<open>Lines 1639 to 1658: one person node for each profile key.\<close>

definition person_step :: "drilldown_input \<Rightarrow> string \<Rightarrow> assembly \<Rightarrow> assembly" where
  "person_step inp key st =
     (let rows = (case profile_role_rows inp key of Some rs \<Rightarrow> rs | None \<Rightarrow> []);
          name0 = (case display_name (profiles inp key) of Some n \<Rightarrow> n | None \<Rightarrow> key);
          (pname, pnode, pdb) =
            (case profile_person_rows inp key of
               Some prow \<Rightarrow>
                 (or_default (pr_canonical_name prow) name0, ''person:'' @ str_nat (pr_id prow),
                  Some (pr_id prow))
             | None \<Rightarrow>
                 (case rows of
                    r # _ \<Rightarrow>
                      (or_default (Some (person_name r)) name0, ''person:'' @ str_nat (person_id r),
                       Some (person_id r))
                  | [] \<Rightarrow> (name0, ''profile-person:'' @ key, None)));
          focus = (key = selected_key inp);
          st = add_node pnode pname (if focus then ''person_focus'' else ''person_peer'')
                 (Some (if focus then ''Fokusperson'' else ''I n'' @ [CHR 0xF8] @ ''kkelnettverket'')) st
      in st\<lparr>person_node_ids := (person_node_ids st)(key \<mapsto> pnode),
            person_names := (person_names st)(key \<mapsto> pname),
            person_db_ids := (case pdb of Some i \<Rightarrow> (person_db_ids st)(key \<mapsto> i) | None \<Rightarrow> person_db_ids st)\<rparr>)"

text \<open>
  Lines 1665 to 1730: one role row of the dataset. The edge, its binding and its
  signature are made from the same values.
\<close>

definition dataset_step :: "drilldown_input \<Rightarrow> string \<Rightarrow> role_row \<Rightarrow> assembly \<Rightarrow> assembly" where
  "dataset_step inp key row st0 =
     (let pnode = the (person_node_ids st0 key);
          pname = the (person_names st0 key);
          onode = ''org:'' @ str_nat (org_id row);
          oname = org_name row;
          org_key = external_recipient_key oname;
          st = add_node onode oname ''organization'' (Some ''Fra datagrunnlag'') st0;
          start_year = map_option year (start_on row);
          end_year = map_option year (end_on row);
          title = or_default (role_title row) ''Rolle'';
          eid = ''person-role:'' @ key @ '':'' @ str_nat (role_id row);
          edge_sources = (case role_sources inp (role_id row) of Some s \<Rightarrow> s | None \<Rightarrow> [])
      in st\<lparr>org_name_to_node_id := (org_name_to_node_id st)(org_key \<mapsto> onode),
            org_node_names := (org_node_names st)(onode \<mapsto> oname),
            org_node_outside := (org_node_outside st)(onode \<mapsto> False),
            edges := edges st @
              [\<lparr>e_id = eid, e_from = pnode, e_to = onode, e_type = ''person_role'',
                e_source_kind = ''dataset'', e_outside_dataset = False, e_title = title,
                e_year = anchor_year row, e_person_name = pname, e_role_title = title,
                e_role_level = role_level row, e_relation_type = None, e_institution_type = None,
                e_start_year = start_year, e_end_year = end_year, e_notes = None,
                e_sources = edge_sources\<rparr>],
            bindings := bindings st @
              [\<lparr>b_id = eid, b_person_key = key, b_person_name = pname,
                b_institution_node_id = onode, b_institution_name = oname, b_role_title = title,
                b_relation_type = Some ''role_event'', b_start_year = start_year,
                b_end_year = end_year, b_source_kind = ''dataset'', b_outside_dataset = False,
                b_notes = norwegian_position_before row, b_sources = edge_sources\<rparr>],
            person_to_orgs := (person_to_orgs st)(key := insert onode (person_to_orgs st key)),
            dataset_binding_signatures :=
              insert (key, org_key, py_lower (py_strip title), start_year, end_year)
                (dataset_binding_signatures st)\<rparr>)"

text \<open>
  Lines 1737 to 1853: one curated binding, with its position in the profile's list. The
  node of the institution is looked up or made before the signature is tested; the test
  on the signature skips the edge and the binding.
\<close>

definition curated_step :: "drilldown_input \<Rightarrow> string \<Rightarrow> nat \<times> curated_item \<Rightarrow> assembly \<Rightarrow> assembly" where
  "curated_step inp key entry st0 =
     (case entry of (idx, item) \<Rightarrow>
      let pnode = the (person_node_ids st0 key);
          pname = the (person_names st0 key);
          start_year = ci_start_year item;
          end_year = ci_end_year item
      in if \<not> in_year_window None (q_year_from inp) (q_year_to inp) start_year end_year then st0
         else if \<not> matches_query
                    [Some pname, ci_institution_name item, ci_role_title item,
                     ci_relation_type item, ci_notes item] (q_text inp) then st0
         else
           let iname = or_default (ci_institution_name item) ''Ukjent institusjon'';
               ikey = external_recipient_key iname;
               outside = (case ci_outside_dataset item of Some v \<Rightarrow> v | None \<Rightarrow> True);
               (inode, st1) =
                 (if truthy (org_name_to_node_id st0 ikey) then (the (org_name_to_node_id st0 ikey), st0)
                  else
                    let new_node = (if outside then ''external-institution:'' @ ikey
                                    else ''curated-organization:'' @ ikey);
                        st = (if outside
                              then add_node new_node iname ''external_institution''
                                     (Some ''Utenfor datagrunnlag'') st0
                              else add_node new_node iname ''organization''
                                     (Some ''Kuratert binding'') st0)
                    in (new_node, st\<lparr>org_name_to_node_id := (org_name_to_node_id st)(ikey \<mapsto> new_node)\<rparr>));
               st2 = st1\<lparr>org_node_names := (org_node_names st1)(inode \<mapsto> iname),
                         org_node_outside := (org_node_outside st1)
                           (inode \<mapsto> (case org_node_outside st1 inode of Some v \<Rightarrow> v | None \<Rightarrow> True)
                                      \<and> outside)\<rparr>;
               title = or_default (ci_role_title item) ''Binding'';
               sig = (key, ikey, py_lower (py_strip title), start_year, end_year)
           in if sig \<in> dataset_binding_signatures st2 then st2
              else
                let eid = ''curated-binding:'' @ key @ '':'' @ ikey @ '':'' @ str_nat idx
                in st2\<lparr>edges := edges st2 @
                        [\<lparr>e_id = eid, e_from = pnode, e_to = inode, e_type = ''curated_binding'',
                          e_source_kind = ''curated'', e_outside_dataset = outside, e_title = title,
                          e_year = start_year, e_person_name = pname, e_role_title = title,
                          e_role_level = None, e_relation_type = ci_relation_type item,
                          e_institution_type = ci_institution_type item,
                          e_start_year = start_year, e_end_year = end_year,
                          e_notes = ci_notes item, e_sources = ci_sources item\<rparr>],
                      bindings := bindings st2 @
                        [\<lparr>b_id = eid, b_person_key = key, b_person_name = pname,
                          b_institution_node_id = inode, b_institution_name = iname,
                          b_role_title = title, b_relation_type = ci_relation_type item,
                          b_start_year = start_year, b_end_year = end_year,
                          b_source_kind = ''curated'', b_outside_dataset = outside,
                          b_notes = ci_notes item, b_sources = ci_sources item\<rparr>],
                      person_to_orgs := (person_to_orgs st2)(key := insert inode (person_to_orgs st2 key))\<rparr>)"

definition person_loop :: "drilldown_input \<Rightarrow> assembly \<Rightarrow> assembly" where
  "person_loop inp st = fold (person_step inp) (profile_keys inp) st"

definition dataset_loop :: "drilldown_input \<Rightarrow> assembly \<Rightarrow> assembly" where
  "dataset_loop inp st =
     fold (\<lambda>key. fold (dataset_step inp key)
                     (case profile_role_rows inp key of Some rs \<Rightarrow> rs | None \<Rightarrow> []))
       (profile_keys inp) st"

definition curated_loop :: "drilldown_input \<Rightarrow> assembly \<Rightarrow> assembly" where
  "curated_loop inp st =
     fold (\<lambda>key. fold (curated_step inp key)
                     (zip [0..<length (curated_bindings (profiles inp key))]
                        (curated_bindings (profiles inp key))))
       (profile_keys inp) st"

definition assemble :: "drilldown_input \<Rightarrow> assembly" where
  "assemble inp = curated_loop inp (dataset_loop inp (person_loop inp empty_assembly))"






subsection \<open>Example data\<close>

text \<open>
  One profile with one role row of the dataset (chair of the Nobel Committee, 2009 to
  2015) and two curated bindings: the first states the same fact with other spacing and
  capitals, the second another fact.
\<close>

definition nobel_role :: role_row where
  "nobel_role =
     \<lparr>role_id = 5, role_title = Some ''Leder'', role_level = None,
      norwegian_position_before = None, announced_on = None,
      start_on = Some \<lparr>year = 2009, month = 1, day = 1\<rparr>,
      end_on = Some \<lparr>year = 2015, month = 3, day = 3\<rparr>,
      person_id = 3, person_name = ''Kari Nordmann'', org_id = 9,
      org_name = ''Den norske Nobelkomite'', anchor_year = Some 2009\<rparr>"

definition curated_same :: curated_item where
  "curated_same =
     \<lparr>ci_institution_name = Some ''  Den  Norske Nobelkomite'', ci_institution_type = Some ''committee'',
      ci_role_title = Some '' LEDER '', ci_relation_type = Some ''appointment'',
      ci_start_year = Some 2009, ci_end_year = Some 2015, ci_outside_dataset = Some True,
      ci_notes = None, ci_sources = []\<rparr>"

definition curated_other :: curated_item where
  "curated_other =
     \<lparr>ci_institution_name = Some ''Stortinget'', ci_institution_type = Some ''parliament'',
      ci_role_title = Some ''Stortingsrepresentant'', ci_relation_type = Some ''office'',
      ci_start_year = Some 1993, ci_end_year = Some 2009, ci_outside_dataset = Some True,
      ci_notes = None, ci_sources = []\<rparr>"

definition kari_input :: drilldown_input where
  "kari_input =
     \<lparr>selected_key = ''kari'', profile_keys = [''kari''],
      profiles = (\<lambda>_. \<lparr>display_name = Some ''Kari Nordmann'',
                         curated_bindings = [curated_same, curated_other]\<rparr>),
      profile_role_rows = [''kari'' \<mapsto> [nobel_role]],
      profile_person_rows = Map.empty, role_sources = Map.empty,
      q_text = None, q_year_from = None, q_year_to = None\<rparr>"

section \<open>Properties of the year window\<close>

lemma in_year_window_anchor:
  "in_year_window (Some y) year_from year_to s e = (lower_ok year_from y \<and> upper_ok year_to y)"
  by (cases year_from; cases year_to) (auto simp: in_year_window_def lower_ok_def upper_ok_def)

lemma in_year_window_interval:
  "in_year_window None year_from year_to s e =
     spec_overlaps (case s of Some v \<Rightarrow> v | None \<Rightarrow> 0) (case e of Some v \<Rightarrow> v | None \<Rightarrow> 9999)
       year_from year_to"
  by (cases year_from; cases year_to)
     (auto simp: in_year_window_def spec_overlaps_def lower_ok_def upper_ok_def Let_def)

text \<open>
  On a well-formed interval and a well-formed window the two comparisons of
  \<open>spec_overlaps\<close> say that the two ranges of years share a year.
\<close>

lemma spec_overlaps_common_year:
  assumes "s \<le> e" and "f \<le> t"
  shows "spec_overlaps s e (Some f) (Some t) = (\<exists>y. s \<le> y \<and> y \<le> e \<and> f \<le> y \<and> y \<le> t)"
proof
  assume "spec_overlaps s e (Some f) (Some t)"
  then have "f \<le> e" and "s \<le> t"
    by (simp_all add: spec_overlaps_def lower_ok_def upper_ok_def)
  with assms have "s \<le> max s f \<and> max s f \<le> e \<and> f \<le> max s f \<and> max s f \<le> t"
    by simp
  then show "\<exists>y. s \<le> y \<and> y \<le> e \<and> f \<le> y \<and> y \<le> t" ..
next
  assume "\<exists>y. s \<le> y \<and> y \<le> e \<and> f \<le> y \<and> y \<le> t"
  then show "spec_overlaps s e (Some f) (Some t)"
    by (auto simp: spec_overlaps_def lower_ok_def upper_ok_def)
qed

lemma matches_query_None: "matches_query texts None"
  by (simp add: matches_query_def truthy_def)

lemma filter_role_rows_set:
  "set (filter_role_rows rows q yf yt) =
     (\<lambda>row. row\<lparr>anchor_year := snd (snd (role_year_bounds row))\<rparr>) ` {row \<in> set rows. role_row_passes q yf yt row}"
  by (induction rows) auto

lemma filter_funding_rows_filter:
  "filter_funding_rows rows q yf yt = filter (funding_row_passes q yf yt) rows"
  by (induction rows) auto


text \<open>
  Claim C10. A funding row whose fiscal year is present is kept exactly when that year
  lies within the bounds (and the text filter matches), whatever its period says; the
  overlap rule on the period is used only when the fiscal year is absent.
\<close>

theorem fiscal_year_decides_window:
  "(f_fiscal_year row = Some y \<longrightarrow>
      (row \<in> set (filter_funding_rows rows q year_from year_to)) =
      (row \<in> set rows \<and> lower_ok year_from y \<and> upper_ok year_to y
       \<and> matches_query [f_org_name row, f_recipient_name_raw row, f_funding_channel row] q))
   \<and> (f_fiscal_year row = None \<longrightarrow>
      (row \<in> set (filter_funding_rows rows q year_from year_to)) =
      (row \<in> set rows
       \<and> spec_overlaps (case f_period_start row of Some d \<Rightarrow> year d | None \<Rightarrow> 0)
            (case f_period_end row of Some d \<Rightarrow> year d | None \<Rightarrow> 9999) year_from year_to
       \<and> matches_query [f_org_name row, f_recipient_name_raw row, f_funding_channel row] q))"
proof (intro conjI impI)
  assume "f_fiscal_year row = Some y"
  then show "(row \<in> set (filter_funding_rows rows q year_from year_to)) =
      (row \<in> set rows \<and> lower_ok year_from y \<and> upper_ok year_to y
       \<and> matches_query [f_org_name row, f_recipient_name_raw row, f_funding_channel row] q)"
    by (auto simp: filter_funding_rows_filter funding_row_passes_def funding_year_bounds_def
        in_year_window_anchor)
next
  assume "f_fiscal_year row = None"
  then show "(row \<in> set (filter_funding_rows rows q year_from year_to)) =
      (row \<in> set rows
       \<and> spec_overlaps (case f_period_start row of Some d \<Rightarrow> year d | None \<Rightarrow> 0)
            (case f_period_end row of Some d \<Rightarrow> year d | None \<Rightarrow> 9999) year_from year_to
       \<and> matches_query [f_org_name row, f_recipient_name_raw row, f_funding_channel row] q)"
    by (cases "f_period_start row"; cases "f_period_end row")
       (auto simp: filter_funding_rows_filter funding_row_passes_def funding_year_bounds_def
        in_year_window_interval)
qed

text \<open>
  At the window 2019 to 2021: the row of fiscal year 2020 is kept although its period
  2010 to 2012 lies outside, the row of fiscal year 2005 is dropped although its period
  2005 to 2025 overlaps, and the row without a fiscal year is kept by that same period.
\<close>

theorem fiscal_year_decides_window_witness:
  "flow_fy (Some 2020) 2010 2012 \<in> set (filter_funding_rows [flow_fy (Some 2020) 2010 2012] None (Some 2019) (Some 2021))
   \<and> flow_fy (Some 2005) 2005 2025 \<notin> set (filter_funding_rows [flow_fy (Some 2005) 2005 2025] None (Some 2019) (Some 2021))
   \<and> flow_fy None 2005 2025 \<in> set (filter_funding_rows [flow_fy None 2005 2025] None (Some 2019) (Some 2021))"
  using fiscal_year_decides_window [of "flow_fy (Some 2020) 2010 2012" 2020 "[flow_fy (Some 2020) 2010 2012]" None "Some 2019" "Some 2021"]
        fiscal_year_decides_window [of "flow_fy (Some 2005) 2005 2025" 2005 "[flow_fy (Some 2005) 2005 2025]" None "Some 2019" "Some 2021"]
        fiscal_year_decides_window [of "flow_fy None 2005 2025" 0 "[flow_fy None 2005 2025]" None "Some 2019" "Some 2021"]
  by (simp add: flow_fy_def lower_ok_def upper_ok_def spec_overlaps_def matches_query_None)

section \<open>Properties of the IATI normalizer\<close>

subsection \<open>What one pass of the loop changes\<close>

lemma insert_alias_row_frame:
  "funding_flow_tbl (insert_alias_row d r) = funding_flow_tbl d"
  "funding_flow_seq (insert_alias_row d r) = funding_flow_seq d"
  "funding_flow_ingest_key (insert_alias_row d r) = funding_flow_ingest_key d"
  "funding_flow_source_document (insert_alias_row d r) = funding_flow_source_document d"
  by (simp_all add: insert_alias_row_def)

lemma ensure_org_alias_iati_frame:
  "funding_flow_tbl (ensure_org_alias_iati d i a s) = funding_flow_tbl d"
  "funding_flow_seq (ensure_org_alias_iati d i a s) = funding_flow_seq d"
  "funding_flow_ingest_key (ensure_org_alias_iati d i a s) = funding_flow_ingest_key d"
  by (simp_all add: ensure_org_alias_iati_def insert_alias_row_frame split: option.splits)

lemma upsert_source_document_frame:
  "funding_flow_tbl (snd (upsert_source_document d a b c e)) = funding_flow_tbl d"
  "funding_flow_seq (snd (upsert_source_document d a b c e)) = funding_flow_seq d"
  "funding_flow_ingest_key (snd (upsert_source_document d a b c e)) = funding_flow_ingest_key d"
  by (simp_all add: upsert_source_document_def Let_def split: option.splits)

lemma source_document_for_frame:
  "funding_flow_tbl (db (snd (source_document_for st row))) = funding_flow_tbl (db st)"
  "funding_flow_seq (db (snd (source_document_for st row))) = funding_flow_seq (db st)"
  "funding_flow_ingest_key (db (snd (source_document_for st row))) = funding_flow_ingest_key (db st)"
  "processed (snd (source_document_for st row)) = processed st"
  "skipped_existing (snd (source_document_for st row)) = skipped_existing st"
  "inserted (snd (source_document_for st row)) = inserted st"
  using upsert_source_document_frame [of "db st"]
  by (auto simp: source_document_for_def ensure_source_document_iati_def Let_def
      split: option.splits prod.splits) (metis snd_conv)+

lemma ensure_funding_source_link_frame:
  "funding_flow_tbl (ensure_funding_source_link d f s r) = funding_flow_tbl d"
  "funding_flow_seq (ensure_funding_source_link d f s r) = funding_flow_seq d"
  "funding_flow_ingest_key (ensure_funding_source_link d f s r) = funding_flow_ingest_key d"
  by (simp_all add: ensure_funding_source_link_def)

lemma materialize_row_effect:
  "funding_flow_tbl (db (materialize_row src lk row st)) =
     funding_flow_tbl (db st) @
       (case value_amount row of
          Some a \<Rightarrow> (if has_recipient lk row
                     then [stored_flow lk row (funding_flow_seq (db st) + 1) a] else [])
        | None \<Rightarrow> [])"
  "funding_flow_ingest_key (db (materialize_row src lk row st)) =
     (if materializable lk row
      then (funding_flow_ingest_key (db st))((src, event_key row) \<mapsto> funding_flow_seq (db st) + 1)
      else funding_flow_ingest_key (db st))"
  "funding_flow_seq (db (materialize_row src lk row st)) =
     (if materializable lk row then funding_flow_seq (db st) + 1 else funding_flow_seq (db st))"
  "skipped_existing (materialize_row src lk row st) = skipped_existing st"
  "processed (materialize_row src lk row st) = processed st"
  "inserted (materialize_row src lk row st) = (if materializable lk row then inserted st + 1 else inserted st)"
proof -
  obtain sid st1 where s: "source_document_for st row = (sid, st1)"
    by (cases "source_document_for st row")
  have f: "funding_flow_tbl (db st1) = funding_flow_tbl (db st)"
    "funding_flow_seq (db st1) = funding_flow_seq (db st)"
    "funding_flow_ingest_key (db st1) = funding_flow_ingest_key (db st)"
    "processed st1 = processed st" "skipped_existing st1 = skipped_existing st"
    "inserted st1 = inserted st"
    using source_document_for_frame [of st row] by (simp_all add: s)
  obtain r rm where r: "map_organization lk (receiver_org_ref row) (receiver_org_name row) = (r, rm)"
    by (cases "map_organization lk (receiver_org_ref row) (receiver_org_name row)")
  obtain d dm where d: "map_organization lk (or_str (provider_org_ref row) (reporting_org_ref row))
             (or_str (provider_org_name row) (reporting_org_name row)) = (d, dm)"
    by (cases "map_organization lk (or_str (provider_org_ref row) (reporting_org_ref row))
             (or_str (provider_org_name row) (reporting_org_name row))")
  note defs = materialize_row_def s r d f Let_def has_recipient_def materializable_def
    resolved_flow_def stored_flow_def insert_funding_flow_def ensure_funding_ingest_key_def
    ensure_funding_source_link_frame ensure_org_alias_iati_frame
  show "funding_flow_tbl (db (materialize_row src lk row st)) =
     funding_flow_tbl (db st) @
       (case value_amount row of
          Some a \<Rightarrow> (if has_recipient lk row
                     then [stored_flow lk row (funding_flow_seq (db st) + 1) a] else [])
        | None \<Rightarrow> [])"
    by (cases r; cases d; cases "value_amount row") (simp_all add: defs)
  show "funding_flow_ingest_key (db (materialize_row src lk row st)) =
     (if materializable lk row
      then (funding_flow_ingest_key (db st))((src, event_key row) \<mapsto> funding_flow_seq (db st) + 1)
      else funding_flow_ingest_key (db st))"
    by (cases r; cases d; cases "value_amount row") (simp_all add: defs)
  show "funding_flow_seq (db (materialize_row src lk row st)) =
     (if materializable lk row then funding_flow_seq (db st) + 1 else funding_flow_seq (db st))"
    by (cases r; cases d; cases "value_amount row") (simp_all add: defs)
  show "skipped_existing (materialize_row src lk row st) = skipped_existing st"
    by (cases r; cases d; cases "value_amount row") (simp_all add: defs)
  show "processed (materialize_row src lk row st) = processed st"
    by (cases r; cases d; cases "value_amount row") (simp_all add: defs)
  show "inserted (materialize_row src lk row st) = (if materializable lk row then inserted st + 1 else inserted st)"
    by (cases r; cases d; cases "value_amount row") (simp_all add: defs)
qed

lemma process_row_hit:
  assumes "lookup_flow_by_ingest_key (db st) src (event_key row) \<noteq> None"
  shows "process_row src lk row st =
           st\<lparr>processed := processed st + 1, skipped_existing := skipped_existing st + 1\<rparr>"
  using assms by (auto simp: process_row_def Let_def lookup_flow_by_ingest_key_def)

lemma process_row_miss:
  assumes "lookup_flow_by_ingest_key (db st) src (event_key row) = None"
  shows "process_row src lk row st = materialize_row src lk row (st\<lparr>processed := processed st + 1\<rparr>)"
  using assms by (simp add: process_row_def Let_def lookup_flow_by_ingest_key_def)

lemma process_row_tbl:
  "funding_flow_tbl (db (process_row src lk row st)) =
     funding_flow_tbl (db st) @
       (if lookup_flow_by_ingest_key (db st) src (event_key row) = None \<and> has_recipient lk row
        then (case value_amount row of
                Some a \<Rightarrow> [stored_flow lk row (funding_flow_seq (db st) + 1) a]
              | None \<Rightarrow> [])
        else [])"
proof (cases "lookup_flow_by_ingest_key (db st) src (event_key row)")
  case None
  then show ?thesis
    by (simp add: process_row_miss materialize_row_effect split: option.splits)
next
  case (Some i)
  then show ?thesis by (simp add: process_row_hit)
qed


lemma process_row_key:
  "lookup_flow_by_ingest_key (db (process_row src lk row st)) src' k =
     (if lookup_flow_by_ingest_key (db st) src (event_key row) = None \<and> materializable lk row
         \<and> (src', k) = (src, event_key row)
      then Some (funding_flow_seq (db st) + 1)
      else lookup_flow_by_ingest_key (db st) src' k)"
proof (cases "lookup_flow_by_ingest_key (db st) src (event_key row)")
  case None
  then show ?thesis
    by (simp add: process_row_miss materialize_row_effect lookup_flow_by_ingest_key_def)
next
  case (Some i)
  then show ?thesis by (simp add: process_row_hit lookup_flow_by_ingest_key_def)
qed



lemma settled_step: "settled src lk st r \<Longrightarrow> settled src lk (process_row src lk row st) r"
  by (auto simp: settled_def process_row_key)

lemma settled_self: "settled src lk (process_row src lk row st) row"
  by (auto simp: settled_def process_row_key)

lemma settled_run:
  "settled src lk st r \<Longrightarrow> settled src lk (normalize_rows mr src lk rows st) r"
  by (induction rows arbitrary: st) (auto simp: settled_step)

lemma settled_after_run:
  "r \<in> set rows \<Longrightarrow> settled src lk (normalize_rows None src lk rows st) r"
proof (induction rows arbitrary: st)
  case Nil
  then show ?case by simp
next
  case (Cons row rows)
  show ?case
  proof (cases "r = row")
    case True
    then show ?thesis by (simp add: settled_run settled_self)
  next
    case False
    then show ?thesis using Cons by simp
  qed
qed

lemma settled_rows_add_nothing:
  assumes "\<forall>r \<in> set rows. settled src lk st r"
  shows "funding_flow_tbl (db (normalize_rows mr src lk rows st)) = funding_flow_tbl (db st)"
  using assms
proof (induction rows arbitrary: st)
  case Nil
  then show ?case by simp
next
  case (Cons row rows)
  have same: "funding_flow_tbl (db (process_row src lk row st)) = funding_flow_tbl (db st)"
    using Cons.prems
    by (auto simp: process_row_tbl settled_def materializable_def split: option.splits)
  have "\<forall>r \<in> set rows. settled src lk (process_row src lk row st) r"
    using Cons.prems by (simp add: settled_step)
  from Cons.IH [OF this] show ?case
    by (simp add: same)
qed

lemma rerun_adds_no_flow:
  "funding_flow_tbl (db (normalize_rows mr src lk rows (normalize_rows None src lk rows st))) =
     funding_flow_tbl (db (normalize_rows None src lk rows st))"
  by (rule settled_rows_add_nothing) (simp add: settled_after_run)












subsection \<open>Exactly-once materialization\<close>




subsection \<open>Fiscal year\<close>




section \<open>Properties of the funding upserts\<close>

lemma update_notes_frame:
  "map (\<lambda>f. f\<lparr>flow_notes := None\<rparr>) (funding_flow_tbl (update_notes d i g))
     = map (\<lambda>f. f\<lparr>flow_notes := None\<rparr>) (funding_flow_tbl d)"
  "(update_notes d i g)\<lparr>funding_flow_tbl := []\<rparr> = d\<lparr>funding_flow_tbl := []\<rparr>"
  "map flow_notes (funding_flow_tbl (update_notes d i g))
     = map (\<lambda>f. if flow_id f = i then g (flow_notes f) else flow_notes f) (funding_flow_tbl d)"
  "length (funding_flow_tbl (update_notes d i g)) = length (funding_flow_tbl d)"
  by (simp_all add: update_notes_def)

text \<open>
  Claim C4, as the code has it. When the composite lookup finds a row (its key is a
  serial number, so not zero), the upsert returns that key, adds no funding row, leaves
  every other table and every column but \<open>notes\<close> as they were, and sets the notes of the
  row found: \<open>upsert_historical_funding\<close> fills them only when they are null, and
  \<open>upsert_funding_flow\<close> replaces them by the new notes unless the new notes are null.
\<close>

theorem upsert_hit_updates_notes_only:
  "(find_existing_funding_flow d recipient fy channel nok original currency = Some i \<and> i \<noteq> 0 \<longrightarrow>
      (case upsert_funding_flow d recipient fy channel nok original currency new_notes of
         (r, d') \<Rightarrow>
           r = i
           \<and> length (funding_flow_tbl d') = length (funding_flow_tbl d)
           \<and> d'\<lparr>funding_flow_tbl := []\<rparr> = d\<lparr>funding_flow_tbl := []\<rparr>
           \<and> map (\<lambda>f. f\<lparr>flow_notes := None\<rparr>) (funding_flow_tbl d')
               = map (\<lambda>f. f\<lparr>flow_notes := None\<rparr>) (funding_flow_tbl d)
           \<and> map flow_notes (funding_flow_tbl d')
               = map (\<lambda>f. if flow_id f = i
                           then (case new_notes of Some n \<Rightarrow> Some n | None \<Rightarrow> flow_notes f)
                           else flow_notes f) (funding_flow_tbl d)))
   \<and> (find_existing_funding_flow_palestine d recipient fy' channel nok' = Some i \<and> i \<noteq> 0 \<longrightarrow>
      (case upsert_historical_funding d recipient fy' nok' channel notes' of
         (r, d') \<Rightarrow>
           r = i
           \<and> length (funding_flow_tbl d') = length (funding_flow_tbl d)
           \<and> d'\<lparr>funding_flow_tbl := []\<rparr> = d\<lparr>funding_flow_tbl := []\<rparr>
           \<and> map (\<lambda>f. f\<lparr>flow_notes := None\<rparr>) (funding_flow_tbl d')
               = map (\<lambda>f. f\<lparr>flow_notes := None\<rparr>) (funding_flow_tbl d)
           \<and> map flow_notes (funding_flow_tbl d')
               = map (\<lambda>f. if flow_id f = i
                           then (case flow_notes f of Some old \<Rightarrow> Some old | None \<Rightarrow> Some notes')
                           else flow_notes f) (funding_flow_tbl d)))"
proof (intro conjI impI)
  assume h: "find_existing_funding_flow d recipient fy channel nok original currency = Some i \<and> i \<noteq> 0"
  then have u: "upsert_funding_flow d recipient fy channel nok original currency new_notes
      = (i, update_notes d i (\<lambda>old. coalesce new_notes old))"
    by (simp add: upsert_funding_flow_def Let_def)
  show "case upsert_funding_flow d recipient fy channel nok original currency new_notes of
         (r, d') \<Rightarrow>
           r = i
           \<and> length (funding_flow_tbl d') = length (funding_flow_tbl d)
           \<and> d'\<lparr>funding_flow_tbl := []\<rparr> = d\<lparr>funding_flow_tbl := []\<rparr>
           \<and> map (\<lambda>f. f\<lparr>flow_notes := None\<rparr>) (funding_flow_tbl d')
               = map (\<lambda>f. f\<lparr>flow_notes := None\<rparr>) (funding_flow_tbl d)
           \<and> map flow_notes (funding_flow_tbl d')
               = map (\<lambda>f. if flow_id f = i
                           then (case new_notes of Some n \<Rightarrow> Some n | None \<Rightarrow> flow_notes f)
                           else flow_notes f) (funding_flow_tbl d)"
    unfolding u by (simp add: update_notes_frame coalesce_def)
next
  assume h: "find_existing_funding_flow_palestine d recipient fy' channel nok' = Some i \<and> i \<noteq> 0"
  then have u: "upsert_historical_funding d recipient fy' nok' channel notes'
      = (i, update_notes d i (\<lambda>old. coalesce old (Some notes')))"
    by (simp add: upsert_historical_funding_def Let_def)
  show "case upsert_historical_funding d recipient fy' nok' channel notes' of
         (r, d') \<Rightarrow>
           r = i
           \<and> length (funding_flow_tbl d') = length (funding_flow_tbl d)
           \<and> d'\<lparr>funding_flow_tbl := []\<rparr> = d\<lparr>funding_flow_tbl := []\<rparr>
           \<and> map (\<lambda>f. f\<lparr>flow_notes := None\<rparr>) (funding_flow_tbl d')
               = map (\<lambda>f. f\<lparr>flow_notes := None\<rparr>) (funding_flow_tbl d)
           \<and> map flow_notes (funding_flow_tbl d')
               = map (\<lambda>f. if flow_id f = i
                           then (case flow_notes f of Some old \<Rightarrow> Some old | None \<Rightarrow> Some notes')
                           else flow_notes f) (funding_flow_tbl d)"
    unfolding u by (simp add: update_notes_frame coalesce_def)
qed


text \<open>
  The claim as it was stated, "an existing non-null notes value is never overwritten",
  fails for \<open>upsert_funding_flow\<close>: the row found carries the first note before and the
  second note after.
\<close>

theorem upsert_overwrites_notes_counterexample:
  "find_existing_funding_flow noted_db 7 (Some 2020) ''NORAD partner_sid=12'' (Some 1000000) None None = Some 1
   \<and> map flow_notes (funding_flow_tbl noted_db) = [Some ''first note'']
   \<and> map flow_notes (funding_flow_tbl (snd (upsert_funding_flow noted_db 7 (Some 2020)
        ''NORAD partner_sid=12'' (Some 1000000) None None (Some ''second note'')))) = [Some ''second note'']"
  by code_simp

text \<open>
  On the store with the one noted row both lookups find the key 1; the first upsert
  replaces the note and the second keeps it, and neither adds a row.
\<close>

theorem upsert_hit_updates_notes_only_witness:
  "map flow_notes (funding_flow_tbl (snd (upsert_funding_flow noted_db 7 (Some 2020)
        ''NORAD partner_sid=12'' (Some 1000000) None None (Some ''second note'')))) = [Some ''second note'']
   \<and> map flow_notes (funding_flow_tbl (snd (upsert_historical_funding noted_db 7 2020 1000000
        ''NORAD partner_sid=12'' ''second note''))) = [Some ''first note'']
   \<and> length (funding_flow_tbl (snd (upsert_historical_funding noted_db 7 2020 1000000
        ''NORAD partner_sid=12'' ''second note''))) = 1"
proof -
  have h1: "find_existing_funding_flow noted_db 7 (Some 2020) ''NORAD partner_sid=12'' (Some 1000000) None None = Some 1 \<and> (1::nat) \<noteq> 0"
    and h2: "find_existing_funding_flow_palestine noted_db 7 2020 ''NORAD partner_sid=12'' 1000000 = Some 1 \<and> (1::nat) \<noteq> 0"
    and t: "funding_flow_tbl noted_db = [noted_flow]" "flow_id noted_flow = 1" "flow_notes noted_flow = Some ''first note''"
    by code_simp+
  from upsert_hit_updates_notes_only [of noted_db 7 "Some 2020" "''NORAD partner_sid=12''" "Some 1000000" None None 1
      "Some ''second note''" 2020 1000000 "''second note''"] h1 h2
  show ?thesis
    by (auto simp: t split: prod.splits)
qed

section \<open>Properties of alias registration\<close>

lemma has_pair_iff:
  "list_ex (\<lambda>r. oa_organization_id r = oa_organization_id new \<and> oa_alias r = oa_alias new)
      (organization_alias_tbl d)
   = ((oa_organization_id new, oa_alias new) \<in> set (alias_pairs d))"
  by (force simp: list_ex_iff alias_pairs_def image_iff)

lemma insert_alias_row_pairs:
  "alias_pairs (insert_alias_row d new) =
     (if (oa_organization_id new, oa_alias new) \<in> set (alias_pairs d) then alias_pairs d
      else alias_pairs d @ [(oa_organization_id new, oa_alias new)])"
  unfolding insert_alias_row_def has_pair_iff by (simp add: alias_pairs_def)

lemma insert_alias_row_keeps:
  "take (length (organization_alias_tbl d)) (organization_alias_tbl (insert_alias_row d new))
     = organization_alias_tbl d"
  by (simp add: insert_alias_row_def)

lemma insert_alias_row_twice:
  "insert_alias_row (insert_alias_row d new) new = insert_alias_row d new"
proof (cases "(oa_organization_id new, oa_alias new) \<in> set (alias_pairs d)")
  case True
  then show ?thesis by (simp add: insert_alias_row_def has_pair_iff)
next
  case False
  then have "insert_alias_row d new = d\<lparr>organization_alias_tbl := organization_alias_tbl d @ [new]\<rparr>"
    by (simp add: insert_alias_row_def has_pair_iff)
  then show ?thesis by (simp add: insert_alias_row_def)
qed

text \<open>
  Claim C9, as the code has it. The alias table holds every pair of entity and alias at
  most once more: registering an alias for an entity appends the pair only if that very
  pair is absent (a blank alias registers nothing), the rows that were there stay as
  they are, so no row moves to another entity, and registering the same pair again
  changes nothing. The conflict target is the pair, not the alias: the same alias string
  can be registered for a second entity.
\<close>

theorem alias_pair_registered_once:
  "alias_pairs (ensure_org_alias_iati d org alias sid) =
     (case clean_text alias of
        None \<Rightarrow> alias_pairs d
      | Some a \<Rightarrow> if (org, a) \<in> set (alias_pairs d) then alias_pairs d else alias_pairs d @ [(org, a)])
   \<and> take (length (organization_alias_tbl d)) (organization_alias_tbl (ensure_org_alias_iati d org alias sid))
       = organization_alias_tbl d
   \<and> ensure_org_alias_iati (ensure_org_alias_iati d org alias sid) org alias sid
       = ensure_org_alias_iati d org alias sid
   \<and> alias_pairs (fst (snd (ensure_org_alias_palestine d lk org alias src))) =
     (case clean_text alias of
        None \<Rightarrow> alias_pairs d
      | Some a \<Rightarrow> if (org, a) \<in> set (alias_pairs d) then alias_pairs d else alias_pairs d @ [(org, a)])
   \<and> take (length (organization_alias_tbl d))
        (organization_alias_tbl (fst (snd (ensure_org_alias_palestine d lk org alias src))))
       = organization_alias_tbl d
   \<and> (case ensure_org_alias_palestine d lk org alias src of
        (r, d', lk') \<Rightarrow> ensure_org_alias_palestine d' lk' org alias src = (r, d', lk'))"
  by (cases "clean_text alias")
     (simp_all add: ensure_org_alias_iati_def ensure_org_alias_palestine_def Let_def
        insert_alias_row_pairs insert_alias_row_keeps insert_alias_row_twice)

text \<open>
  The claim as it was stated, "inserts only if the alias is not already mapped to any
  entity", fails in both scripts: WHO belongs to organization 1, and registering it for
  organization 2 inserts a second row, after which the alias maps to two entities.
\<close>

theorem alias_shared_by_two_entities_counterexample:
  "alias_pairs who_db = [(1, ''WHO'')]
   \<and> alias_pairs (ensure_org_alias_iati who_db 2 (Some ''WHO'') None) = [(1, ''WHO''), (2, ''WHO'')]
   \<and> alias_pairs (fst (snd (ensure_org_alias_palestine who_db [''who'' \<mapsto> 1] 2 (Some ''WHO'')
        ''norad_partnercode''))) = [(1, ''WHO''), (2, ''WHO'')]"
  by code_simp

text \<open>
  The in-memory lookup of \<open>load_palestine_organizations\<close> is not the alias table: the
  call sets the normalized alias to the organization it registers, whatever it held.
\<close>

lemma ensure_org_alias_palestine_lookup:
  "snd (snd (ensure_org_alias_palestine d lk org alias src)) =
     (case clean_text alias of
        None \<Rightarrow> lk
      | Some a \<Rightarrow> if normalize_name_palestine a \<noteq> [] then lk(normalize_name_palestine a \<mapsto> org) else lk)"
  by (simp add: ensure_org_alias_palestine_def Let_def split: option.splits)

section \<open>Properties of the name normalizer\<close>

subsection \<open>Whitespace runs and trimming\<close>

lemma space_is_space: "py_isspace (CHR '' '')"
  by (simp add: py_isspace_def cp_def)

lemma collapse_ws_chars:
  "c \<in> set (collapse_ws s) \<Longrightarrow> c = CHR '' '' \<or> (c \<in> set s \<and> \<not> py_isspace c)"
proof (induction s arbitrary: c rule: collapse_ws.induct)
  case 1
  then show ?case by simp
next
  case (2 d ds)
  show ?case
  proof (cases "py_isspace d")
    case True
    with 2 show ?thesis
      by (auto dest: set_dropWhileD)
  next
    case False
    with 2 show ?thesis by auto
  qed
qed

lemma collapse_ws_head:
  "s \<noteq> [] \<Longrightarrow> \<not> py_isspace (hd s) \<Longrightarrow> collapse_ws s \<noteq> [] \<and> hd (collapse_ws s) = hd s"
  by (cases s) simp_all

lemma dropWhile_head: "dropWhile P s \<noteq> [] \<Longrightarrow> \<not> P (hd (dropWhile P s))"
  using hd_dropWhile by blast

lemma single_spaced_Cons:
  "single_spaced (c # s) =
     ((if py_isspace c then c = CHR '' '' \<and> (s = [] \<or> \<not> py_isspace (hd s)) else True) \<and> single_spaced s)"
  by (cases s) auto

lemma single_spaced_collapse: "single_spaced (collapse_ws s)"
proof (induction s rule: collapse_ws.induct)
  case 1
  then show ?case by simp
next
  case (2 c cs)
  show ?case
  proof (cases "py_isspace c")
    case True
    let ?r = "dropWhile py_isspace cs"
    have "collapse_ws ?r = [] \<or> \<not> py_isspace (hd (collapse_ws ?r))"
    proof -
      have "?r = [] \<or> (?r \<noteq> [] \<and> \<not> py_isspace (hd ?r))"
        using dropWhile_head by blast
      then show ?thesis
        by (metis collapse_ws.simps(1) collapse_ws_head)
    qed
    with True 2 show ?thesis
      by (simp add: single_spaced_Cons)
  next
    case False
    with 2 show ?thesis by (simp add: single_spaced_Cons)
  qed
qed

lemma collapse_ws_id: "single_spaced s \<Longrightarrow> collapse_ws s = s"
proof (induction s rule: collapse_ws.induct)
  case 1
  then show ?case by simp
next
  case (2 c cs)
  show ?case
  proof (cases "py_isspace c")
    case True
    with "2.prems" have c: "c = CHR '' ''" and h: "cs = [] \<or> \<not> py_isspace (hd cs)" and t: "single_spaced cs"
      by (simp_all add: single_spaced_Cons)
    from h have d: "dropWhile py_isspace cs = cs"
      by (cases cs) auto
    from "2.IH"(1) [OF True] t d have "collapse_ws cs = cs" by simp
    with True c d show ?thesis by simp
  next
    case False
    with 2 show ?thesis by (simp add: single_spaced_Cons)
  qed
qed

lemma single_spaced_suffix: "single_spaced (xs @ ys) \<Longrightarrow> single_spaced ys"
  by (induction xs) (simp_all add: single_spaced_Cons)

lemma single_spaced_prefix: "single_spaced (xs @ ys) \<Longrightarrow> single_spaced xs"
proof (induction xs)
  case Nil
  then show ?case by simp
next
  case (Cons x xs)
  then show ?case
    by (cases xs) (auto simp: single_spaced_Cons split: if_splits)
qed

lemma py_strip_decomp:
  "\<exists>p q. s = p @ py_strip s @ q"
proof -
  let ?s' = "dropWhile py_isspace s"
  have a: "s = takeWhile py_isspace s @ ?s'" by simp
  have "rev ?s' = takeWhile py_isspace (rev ?s') @ dropWhile py_isspace (rev ?s')" by simp
  then have "?s' = rev (dropWhile py_isspace (rev ?s')) @ rev (takeWhile py_isspace (rev ?s'))"
    by (metis rev_append rev_rev_ident)
  then have b: "?s' = py_strip s @ rev (takeWhile py_isspace (rev ?s'))"
    by (simp add: py_strip_def)
  from a b have "s = takeWhile py_isspace s @ py_strip s @ rev (takeWhile py_isspace (rev ?s'))"
    by simp
  then show ?thesis by blast
qed

lemma py_strip_trimmed: "trimmed (py_strip s)"
proof (cases "py_strip s = []")
  case True
  then show ?thesis by (simp add: trimmed_def)
next
  case False
  let ?s' = "dropWhile py_isspace s"
  let ?r = "dropWhile py_isspace (rev ?s')"
  from False have r: "?r \<noteq> []" by (simp add: py_strip_def)
  then have hr: "\<not> py_isspace (hd ?r)" by (rule dropWhile_head)
  have l: "last (py_strip s) = hd ?r"
    using r by (simp add: py_strip_def last_rev)
  obtain q where q: "?s' = py_strip s @ q"
    by (metis py_strip_def append_take_drop_id rev_append rev_rev_ident takeWhile_dropWhile_id)
  from False q have "?s' \<noteq> []" by auto
  then have "\<not> py_isspace (hd ?s')" by (rule dropWhile_head)
  moreover from False q have "hd ?s' = hd (py_strip s)" by (metis hd_append2)
  ultimately show ?thesis using False hr l by (simp add: trimmed_def)
qed

lemma py_strip_id: "trimmed s \<Longrightarrow> py_strip s = s"
proof (cases "s = []")
  case True
  then show ?thesis by (simp add: py_strip_def)
next
  case False
  assume "trimmed s"
  with False have h: "\<not> py_isspace (hd s)" and l: "\<not> py_isspace (last s)"
    by (simp_all add: trimmed_def)
  from False h have a: "dropWhile py_isspace s = s" by (cases s) auto
  from False l have "\<not> py_isspace (hd (rev s))" by (simp add: hd_rev)
  with False have "dropWhile py_isspace (rev s) = rev s" by (cases "rev s") auto
  with a show ?thesis by (simp add: py_strip_def)
qed

subsection \<open>The normal form is reached and is fixed\<close>

lemma normal_form_reached:
  assumes "\<forall>c \<in> set t. K c \<or> py_isspace c"
  shows "normal_form K (py_strip (collapse_ws t))"
proof -
  let ?u = "collapse_ws t"
  obtain p q where u: "?u = p @ py_strip ?u @ q"
    using py_strip_decomp by blast
  have chars: "\<forall>c \<in> set ?u. K c \<or> c = CHR '' ''"
    using assms collapse_ws_chars by blast
  have "set (py_strip ?u) \<subseteq> set ?u"
    by (subst (2) u) auto
  with chars have a: "list_all (\<lambda>c. K c \<or> c = CHR '' '') (py_strip ?u)"
    by (auto simp: list_all_iff)
  have "single_spaced (p @ py_strip ?u @ q)"
    using single_spaced_collapse [of t] u by simp
  then have b: "single_spaced (py_strip ?u)"
    using single_spaced_suffix single_spaced_prefix by blast
  from a b py_strip_trimmed show ?thesis
    by (simp add: normal_form_def)
qed

lemma replace_amp_id: "CHR ''&'' \<notin> set s \<Longrightarrow> replace_amp s = s"
  by (induction s) (auto simp: replace_amp_def)

lemma sub_parens_id: "CHR ''('' \<notin> set s \<Longrightarrow> sub_parens s = s"
  by (induction s rule: sub_parens.induct) auto

lemma py_lower_id: "\<forall>c \<in> set s. py_lower_char c = c \<Longrightarrow> py_lower s = s"
  by (simp add: py_lower_def map_idI)

text \<open>The characters of the three normal forms.\<close>

lemma space_facts:
  "py_lower_char (CHR '' '') = CHR '' ''" "keep_enrich (CHR '' '')" "keep_iati (CHR '' '')"
  by (simp_all add: py_lower_char_def keep_enrich_def keep_iati_def py_isspace_def cp_def)

lemma name_char_facts:
  assumes "name_char c"
  shows "py_lower_char c = c" "c \<noteq> CHR ''&''" "c \<noteq> CHR ''(''" "keep_enrich c" "\<not> py_isspace c"
  using assms
  by (auto simp: name_char_def is_az09_def is_ae_oe_aa_def py_lower_char_def keep_enrich_def
      py_isspace_def cp_def)

lemma name_char_iati_facts:
  assumes "name_char_iati c"
  shows "py_lower_char c = c" "c \<noteq> CHR ''&''" "keep_iati c" "\<not> py_isspace c"
  using assms
  by (auto simp: name_char_iati_def is_az09_def is_ae_oe_aa_def py_lower_char_def keep_iati_def
      py_isspace_def cp_def)

lemma name_char_palestine_facts:
  assumes "name_char_palestine c"
  shows "py_lower_char c = c" "c \<noteq> CHR ''&''" "c \<noteq> CHR ''(''" "keep_palestine c" "\<not> py_isspace c"
  using assms
  by (auto simp: name_char_palestine_def is_az09_def py_lower_char_def keep_palestine_def
      py_isspace_def cp_def)

lemma normalize_name_normal: "normal_form name_char (normalize_name x)"
  unfolding normalize_name_def Let_def
  by (rule normal_form_reached) (auto simp: keep_enrich_def name_char_def space_is_space)

lemma normalize_name_fixes:
  assumes "normal_form name_char s"
  shows "normalize_name s = s"
proof -
  from assms have chars: "\<forall>c \<in> set s. name_char c \<or> c = CHR '' ''"
    and ss: "single_spaced s" and tr: "trimmed s"
    by (simp_all add: normal_form_def list_all_iff)
  have 1: "py_lower s = s"
    using chars by (intro py_lower_id) (auto simp: name_char_facts space_facts)
  have 2: "replace_amp s = s"
    using chars by (intro replace_amp_id) (auto dest: name_char_facts)
  have 3: "sub_parens s = s"
    using chars by (intro sub_parens_id) (auto dest: name_char_facts)
  have 4: "map (\<lambda>c. if keep_enrich c then c else CHR '' '') s = s"
    using chars by (intro map_idI) (auto simp: name_char_facts space_facts)
  show ?thesis
    by (simp add: normalize_name_def 1 2 3 4 collapse_ws_id [OF ss] py_strip_id [OF tr])
qed

lemma normalize_name_iati_normal: "normal_form name_char_iati (normalize_name_iati x)"
  unfolding normalize_name_iati_def Let_def
  by (rule normal_form_reached) (auto simp: keep_iati_def name_char_iati_def space_is_space)

lemma normalize_name_iati_fixes:
  assumes "normal_form name_char_iati s"
  shows "normalize_name_iati s = s"
proof -
  from assms have chars: "\<forall>c \<in> set s. name_char_iati c \<or> c = CHR '' ''"
    and ss: "single_spaced s" and tr: "trimmed s"
    by (simp_all add: normal_form_def list_all_iff)
  have 1: "py_lower s = s"
    using chars by (intro py_lower_id) (auto simp: name_char_iati_facts space_facts)
  have 2: "replace_amp s = s"
    using chars by (intro replace_amp_id) (auto dest: name_char_iati_facts)
  have 4: "map (\<lambda>c. if keep_iati c then c else CHR '' '') s = s"
    using chars by (intro map_idI) (auto simp: name_char_iati_facts space_facts)
  show ?thesis
    by (simp add: normalize_name_iati_def 1 2 4 collapse_ws_id [OF ss] py_strip_id [OF tr])
qed

lemma normalize_name_palestine_normal: "normal_form name_char_palestine (normalize_name_palestine x)"
  unfolding normalize_name_palestine_def Let_def
  by (rule normal_form_reached) (auto simp: keep_palestine_def name_char_palestine_def space_is_space)

lemma normalize_name_palestine_fixes:
  assumes "normal_form name_char_palestine s"
  shows "normalize_name_palestine s = s"
proof -
  from assms have chars: "\<forall>c \<in> set s. name_char_palestine c \<or> c = CHR '' ''"
    and ss: "single_spaced s" and tr: "trimmed s"
    by (simp_all add: normal_form_def list_all_iff)
  have sp: "py_lower_char (CHR '' '') = CHR '' ''"
    by (rule space_facts)
  have 1: "py_lower s = s"
    using chars by (intro py_lower_id) (auto simp: name_char_palestine_facts sp)
  have 2: "replace_amp s = s"
    using chars by (intro replace_amp_id) (auto dest: name_char_palestine_facts)
  have 3: "sub_parens s = s"
    using chars by (intro sub_parens_id) (auto dest: name_char_palestine_facts)
  have 4: "map (\<lambda>c. if keep_palestine c then c else CHR '' '') s = s"
    using chars by (intro map_idI) (auto simp: name_char_palestine_facts)
  show ?thesis
    by (simp add: normalize_name_palestine_def 1 2 3 4 collapse_ws_id [OF ss] py_strip_id [OF tr])
qed

lemma normalize_name_palestine_idem:
  "normalize_name_palestine (normalize_name_palestine x) = normalize_name_palestine x"
  by (rule normalize_name_palestine_fixes) (rule normalize_name_palestine_normal)

text \<open>
  Claim C6. The name normalizer is a function of its input alone (the model is a HOL
  function, so it is deterministic and has no effect), and normalizing twice gives what
  normalizing once gives, for every string; so for the normalizer of
  \<open>enrich_norad_oecd.py\<close> and for the one of \<open>normalize_iati_staging.py\<close>.
\<close>

theorem normalize_name_idempotent:
  "normalize_name (normalize_name x) = normalize_name x
   \<and> normalize_name_iati (normalize_name_iati x) = normalize_name_iati x"
  by (simp add: normalize_name_fixes normalize_name_normal
      normalize_name_iati_fixes normalize_name_iati_normal)


section \<open>Properties of the similarity score\<close>

subsection \<open>A string against itself\<close>

lemma dg_le: "dg a i \<le> i + 1"
  by (induction i) simp_all

lemma dg_step: "\<not> popular a (a ! i) \<Longrightarrow> dg a i = prev_dg a i + 1"
  by (cases i) (simp_all add: prev_dg_def)

lemma dg_popular: "popular a (a ! i) \<Longrightarrow> dg a i = 0"
  by (cases i) simp_all

lemma inner_fold_diag:
  assumes prev: "\<forall>j. j2len j \<le> prev_dg a i \<and> j2len j \<le> dg a j"
    and prev_i: "0 < i \<Longrightarrow> j2len (i - 1) = dg a (i - 1)"
    and np: "\<not> popular a (a ! i)"
  shows "sorted js \<Longrightarrow> distinct js \<Longrightarrow> \<forall>j \<in> set js. a ! j = a ! i
     \<Longrightarrow> (if seen then i \<notin> set js else i \<in> set js)
     \<Longrightarrow> diag_inv a i seen (new, best)
     \<Longrightarrow> diag_inv a i True (fold (inner_step i j2len) js (new, best))"
proof (induction js arbitrary: seen new best)
  case Nil
  then show ?case by (simp split: if_splits)
next
  case (Cons j js)
  obtain bi bj bs where best: "best = (bi, bj, bs)" by (cases best)
  define k where "k = (if j = 0 then 0 else j2len (j - 1)) + 1"
  have aj: "a ! j = a ! i" using Cons.prems(3) by simp
  then have npj: "\<not> popular a (a ! j)" using np by simp
  have di: "dg a i = prev_dg a i + 1" using np by (rule dg_step)
  have dj: "dg a j = prev_dg a j + 1" using npj by (rule dg_step)
  have k_j: "k \<le> dg a j"
    using prev by (auto simp: k_def dj prev_dg_def)
  have k_i: "k \<le> dg a i"
    using prev by (auto simp: k_def di)
  have k_eq: "j = i \<Longrightarrow> k = dg a i"
    using prev_i by (auto simp: k_def di prev_dg_def)
  from Cons.prems(5) have inv:
    "bi = bj" "if bs = 0 then bi = 0 else bi + bs \<le> i + 1" "\<forall>i' < i. dg a i' \<le> bs"
    "if seen then dg a i \<le> bs \<and> new i = dg a i else True"
    "\<forall>j. new j \<le> dg a i \<and> new j \<le> dg a j"
    by (auto simp: diag_inv_def best split: if_splits)
  have seen_later: "i < j \<Longrightarrow> seen"
  proof (rule ccontr)
    assume "i < j" and "\<not> seen"
    with Cons.prems(4) have "i \<in> set js" by auto
    with Cons.prems(1) have "j \<le> i" by simp
    with \<open>i < j\<close> show False by simp
  qed
  have only_diag: "bs < k \<Longrightarrow> j = i"
  proof (rule ccontr)
    assume "bs < k" and "j \<noteq> i"
    then consider "j < i" | "i < j" by arith
    then show False
    proof cases
      case 1
      with inv(3) have "dg a j \<le> bs" by simp
      with k_j \<open>bs < k\<close> show False by simp
    next
      case 2
      then have seen by (rule seen_later)
      with inv(4) have "dg a i \<le> bs" by simp
      with k_i \<open>bs < k\<close> show False by simp
    qed
  qed
  define seen' where "seen' = (seen \<or> j = i)"
  define best' where "best' = (if bs < k then (i + 1 - k, j + 1 - k, k) else (bi, bj, bs))"
  have step: "inner_step i j2len j (new, best) = (new(j := k), best')"
    by (simp add: inner_step_def best k_def best'_def Let_def)
  have kpos: "0 < k" by (simp add: k_def)
  have ki: "k \<le> i + 1" using k_i dg_le [of a i] by simp
  have inv': "diag_inv a i seen' (new(j := k), best')"
  proof (cases "bs < k")
    case True
    then have ji: "j = i" by (rule only_diag)
    have "\<forall>i' < i. dg a i' \<le> k" using inv(3) True by auto
    moreover have "\<forall>j'. (new(j := k)) j' \<le> dg a i \<and> (new(j := k)) j' \<le> dg a j'"
      using inv(5) k_i k_j by auto
    ultimately show ?thesis
      using True ji kpos ki k_eq
      by (simp add: diag_inv_def best'_def seen'_def)
  next
    case False
    have a: "\<forall>j'. (new(j := k)) j' \<le> dg a i \<and> (new(j := k)) j' \<le> dg a j'"
      using inv(5) k_i k_j by auto
    have b: "if seen' then dg a i \<le> bs \<and> (new(j := k)) i = dg a i else True"
    proof (cases "j = i")
      case True
      with False k_eq show ?thesis by (simp add: seen'_def)
    next
      case False
      with inv(4) show ?thesis by (simp add: seen'_def)
    qed
    from a b False inv(1,2,3) show ?thesis
      by (auto simp: diag_inv_def best'_def split: if_splits)
  qed
  have rest: "if seen' then i \<notin> set js else i \<in> set js"
    using Cons.prems(2,4) by (auto simp: seen'_def split: if_splits)
  have tail: "sorted js" "distinct js" "\<forall>j \<in> set js. a ! j = a ! i"
    using Cons.prems(1,2,3) by simp_all
  have "diag_inv a i True (fold (inner_step i j2len) js (new(j := k), best'))"
    using tail rest inv' by (rule Cons.IH)
  then show ?case by (simp only: fold_simps step)
qed

lemma self_indices:
  assumes "i < length a" and "\<not> popular a (a ! i)"
  shows "filter (\<lambda>j. 0 \<le> j \<and> j < length a) (b2j a (a ! i)) = filter (\<lambda>j. a ! j = a ! i) [0..<length a]"
  using assms by (auto simp: b2j_def intro: filter_cong)

lemma row_step_diag:
  assumes "row_inv a i s" and "i < length a"
  shows "row_inv a (Suc i) (row_step a a 0 (length a) i s)"
proof -
  obtain j2len bi bj bs where s: "s = (j2len, (bi, bj, bs))" by (cases s) auto
  from assms(1) have inv:
    "bi = bj" "if bs = 0 then bi = 0 else bi + bs \<le> i" "\<forall>i' < i. dg a i' \<le> bs"
    "\<forall>j. j2len j \<le> prev_dg a i \<and> j2len j \<le> dg a j"
    "if 0 < i then j2len (i - 1) = dg a (i - 1) else True"
    by (auto simp: row_inv_def s split: if_splits)
  show ?thesis
  proof (cases "popular a (a ! i)")
    case True
    then have "row_step a a 0 (length a) i s = (\<lambda>_. 0, (bi, bj, bs))"
      by (simp add: row_step_def s b2j_def)
    moreover have "dg a i = 0" using True by (rule dg_popular)
    moreover have "\<forall>i' < Suc i. dg a i' \<le> bs"
      using inv(3) \<open>dg a i = 0\<close> by (auto simp: less_Suc_eq)
    ultimately show ?thesis
      using inv(1,2) by (simp add: row_inv_def prev_dg_def split: if_splits)
  next
    case False
    let ?js = "filter (\<lambda>j. a ! j = a ! i) [0..<length a]"
    have start: "diag_inv a i False (\<lambda>_. 0, (bi, bj, bs))"
      using inv(1,2,3) by (simp add: diag_inv_def split: if_splits)
    have "diag_inv a i True (fold (inner_step i j2len) ?js (\<lambda>_. 0, (bi, bj, bs)))"
    proof (rule inner_fold_diag [where seen = False])
      show "\<forall>j. j2len j \<le> prev_dg a i \<and> j2len j \<le> dg a j" by (rule inv(4))
      show "0 < i \<Longrightarrow> j2len (i - 1) = dg a (i - 1)" using inv(5) by simp
      show "\<not> popular a (a ! i)" by (rule False)
      show "sorted ?js" by (simp add: sorted_wrt_filter)
      show "distinct ?js" by simp
      show "\<forall>j \<in> set ?js. a ! j = a ! i" by simp
      show "if False then i \<notin> set ?js else i \<in> set ?js" using assms(2) by simp
      show "diag_inv a i False (\<lambda>_. 0, (bi, bj, bs))" by (rule start)
    qed
    moreover have "row_step a a 0 (length a) i s = fold (inner_step i j2len) ?js (\<lambda>_. 0, (bi, bj, bs))"
      using self_indices [OF assms(2) False] by (simp add: row_step_def s)
    ultimately have d: "diag_inv a i True (row_step a a 0 (length a) i s)" by simp
    obtain new ci cj cs where r: "row_step a a 0 (length a) i s = (new, (ci, cj, cs))"
      by (cases "row_step a a 0 (length a) i s") auto
    from d have
      "ci = cj" "if cs = 0 then ci = 0 else ci + cs \<le> i + 1" "\<forall>i' < i. dg a i' \<le> cs"
      "dg a i \<le> cs \<and> new i = dg a i" "\<forall>j. new j \<le> dg a i \<and> new j \<le> dg a j"
      by (auto simp: diag_inv_def r split: if_splits)
    then show ?thesis
      by (auto simp: row_inv_def r prev_dg_def less_Suc_eq split: if_splits)
  qed
qed

lemma longest_run_diag_aux:
  "m \<le> length a \<Longrightarrow> row_inv a m (fold (row_step a a 0 (length a)) [0..<m] (\<lambda>_. 0, (0, 0, 0)))"
proof (induction m)
  case 0
  then show ?case by (simp add: row_inv_def prev_dg_def)
next
  case (Suc m)
  then show ?case by (simp add: row_step_diag)
qed

lemma extend_back_diag: "extend_back a a 0 0 (d, d, s) = (0, 0, s + d)"
proof (induction d arbitrary: s)
  case 0
  show ?case by (subst extend_back.simps) simp
next
  case (Suc d)
  show ?case by (subst extend_back.simps) (simp add: Suc.IH)
qed

lemma extend_forward_diag: "s \<le> n \<Longrightarrow> extend_forward a a n n (0, 0, s) = (0, 0, n)"
proof (induction "n - s" arbitrary: s)
  case 0
  then show ?case by (subst extend_forward.simps) simp
next
  case (Suc m)
  then have "m = n - (s + 1)" and "s + 1 \<le> n" and "s < n" by simp_all
  with Suc.hyps(1) [of "s + 1"] show ?case
    by (subst extend_forward.simps) simp
qed

lemma find_longest_match_self:
  "find_longest_match a a 0 (length a) 0 (length a) = (0, 0, length a)"
proof -
  obtain j2len d d' s where l: "longest_run a a 0 (length a) 0 (length a) = (j2len, (d, d', s))"
    by (cases "longest_run a a 0 (length a) 0 (length a)") auto
  have "row_inv a (length a) (j2len, (d, d', s))"
    using longest_run_diag_aux [of "length a" a] by (simp add: longest_run_def l [symmetric])
  then have "d' = d" and "s + d \<le> length a"
    by (auto simp: row_inv_def split: if_splits)
  then show ?thesis
    by (simp add: find_longest_match_def l extend_back_diag extend_forward_diag)
qed

lemma matching_blocks_self:
  "matching_blocks a a [(0, length a, 0, length a)] = (if a = [] then [] else [(0, 0, length a)])"
  by (simp add: matching_blocks.simps find_longest_match_self)

lemma ratio_self: "ratio a a = 1"
  by (simp add: ratio_def matching_blocks_self Let_def)

lemma py_in_self: "s \<noteq> [] \<Longrightarrow> py_in s s"
  by (cases s) simp_all

lemma token_set_finite: "finite (token_set a)"
  by (simp add: token_set_def)

text \<open>
  Claim C7, as the code has it. The score of a name against itself is 1 exactly when
  the name has a token (a normalized word of three characters or more that is neither a
  stopword nor a number): the ratio and the containment boost alone give
  0.65 + 0.1 = 0.75 when the token set is empty, since the Jaccard term is then 0, and
  the score is 0 when the normalized name is empty.
\<close>

theorem similarity_reflexive_on_tokens:
  "similarity a a = (if normalize_name a = [] then 0 else if token_set a = {} then 3 / 4 else 1)"
proof (cases "normalize_name a = []")
  case True
  then show ?thesis by (simp add: similarity_def)
next
  case False
  note nonempty = this
  show ?thesis
  proof (cases "token_set a = {}")
    case True
    with nonempty show ?thesis
      by (simp add: similarity_def Let_def ratio_self py_in_self)
  next
    case False
    then have "card (token_set a) \<noteq> 0"
      using token_set_finite by simp
    with False nonempty show ?thesis
      by (simp add: similarity_def Let_def ratio_self py_in_self)
  qed
qed

text \<open>
  The claim as it was stated, "for every non-empty string the score against itself is
  1", fails for a name that normalizes to nothing and for a name without tokens.
\<close>

theorem similarity_not_reflexive_counterexample:
  "''?'' \<noteq> [] \<and> similarity ''?'' ''?'' = 0 \<and> ''UN'' \<noteq> [] \<and> similarity ''UN'' ''UN'' = 3 / 4"
  by code_simp

text \<open>A name with a token: UNICEF scores 1 against itself.\<close>

theorem similarity_reflexive_on_tokens_witness:
  "token_set ''UNICEF'' \<noteq> {} \<and> similarity ''UNICEF'' ''UNICEF'' = 1"
proof -
  have n: "normalize_name ''UNICEF'' \<noteq> []" and t: "token_set ''UNICEF'' \<noteq> {}"
    by code_simp+
  from similarity_reflexive_on_tokens [of "''UNICEF''"] n t show ?thesis
    by simp
qed


section \<open>The person drilldown: curated bindings against dataset roles\<close>

subsection \<open>What one step adds\<close>

lemma add_node_frame:
  "edges (add_node n l t s st) = edges st"
  "bindings (add_node n l t s st) = bindings st"
  "dataset_binding_signatures (add_node n l t s st) = dataset_binding_signatures st"
  "person_node_ids (add_node n l t s st) = person_node_ids st"
  "person_names (add_node n l t s st) = person_names st"
  "org_name_to_node_id (add_node n l t s st) = org_name_to_node_id st"
  by (simp_all add: add_node_def split: option.splits)





subsection \<open>The person lookups\<close>

text \<open>
  The role loop and the curated loop read \<^verbatim>\<open>person_node_ids[key]\<close> and
  \<^verbatim>\<open>person_names[key]\<close> for every profile key. The first loop has written both for every
  profile key and no later step changes them, so these lookups find a value.
\<close>

lemma person_step_defines:
  "person_node_ids (person_step inp key st) key \<noteq> None
   \<and> person_names (person_step inp key st) key \<noteq> None
   \<and> (person_node_ids st k \<noteq> None \<longrightarrow> person_node_ids (person_step inp key st) k \<noteq> None)
   \<and> (person_names st k \<noteq> None \<longrightarrow> person_names (person_step inp key st) k \<noteq> None)"
  by (simp add: person_step_def Let_def add_node_frame split: prod.splits)

lemma person_fold_defines:
  "(k \<in> set ks \<or> (person_node_ids st k \<noteq> None \<and> person_names st k \<noteq> None))
   \<Longrightarrow> person_node_ids (fold (person_step inp) ks st) k \<noteq> None
       \<and> person_names (fold (person_step inp) ks st) k \<noteq> None"
proof (induction ks arbitrary: st)
  case Nil
  then show ?case by simp
next
  case (Cons key ks)
  from person_step_defines [of inp key st k] person_step_defines [of inp k st k] Cons.prems
  have "k \<in> set ks \<or> (person_node_ids (person_step inp key st) k \<noteq> None
          \<and> person_names (person_step inp key st) k \<noteq> None)"
    by auto
  from Cons.IH [OF this] show ?case by simp
qed

lemma person_loop_defines:
  "k \<in> set (profile_keys inp)
   \<Longrightarrow> person_node_ids (person_loop inp st) k \<noteq> None \<and> person_names (person_loop inp st) k \<noteq> None"
  unfolding person_loop_def by (rule person_fold_defines) simp

lemma dataset_step_persons:
  "person_node_ids (dataset_step inp key row st) = person_node_ids st
   \<and> person_names (dataset_step inp key row st) = person_names st"
  by (simp add: dataset_step_def Let_def add_node_frame)

lemma curated_step_persons:
  "person_node_ids (curated_step inp key entry st) = person_node_ids st
   \<and> person_names (curated_step inp key entry st) = person_names st"
  by (cases entry) (simp add: curated_step_def Let_def add_node_frame split: prod.splits)

subsection \<open>What the loops keep true\<close>












subsection \<open>The example profile\<close>



lemma kari_same:
  "(''kari'', external_recipient_key (the (ci_institution_name curated_same)),
     py_lower (py_strip (the (ci_role_title curated_same))),
     ci_start_year curated_same, ci_end_year curated_same)
     \<in> dataset_binding_signatures (assemble kari_input)"
  by code_simp

subsection \<open>The claim\<close>




end
